theory Spec2Isabelle
  imports Complex_Main "HOL-Library.Multiset"
begin

section \<open>Numbers\<close>

text \<open>
  The component computes with JavaScript numbers. They are modelled as real numbers, so
  sums and products are exact. Where the analysed code can produce a value that is not a
  real number (\<open>0 / 0\<close> in the waveform construction, a product with a value that is
  not a number in the aggregation), the value is a \<open>jsnum\<close>. Zero carries no sign in
  this model.
\<close>

datatype jsnum = Num real | PosInfinity | NegInfinity | NaN

text \<open>

  \<open>parseFloat_toFixed f x\<close> is \<open>parseFloat(x.toFixed(f))\<close>: \<open>toFixed\<close> prints the
  decimal with \<open>f\<close> fraction digits that is nearest to \<open>x\<close>, the larger magnitude on a
  tie, and \<open>parseFloat\<close> reads it back.
\<close>

definition parseFloat_toFixed :: "nat \<Rightarrow> real \<Rightarrow> real" where
  "parseFloat_toFixed f x =
     (if x < 0 then - (real_of_int \<lfloor>(- x) * 10 ^ f + 1 / 2\<rfloor> / 10 ^ f)
      else real_of_int \<lfloor>x * 10 ^ f + 1 / 2\<rfloor> / 10 ^ f)"

text \<open>A number has at most \<open>f\<close> fraction digits when printing it with \<open>f\<close> digits loses nothing.\<close>

definition has_decimals :: "nat \<Rightarrow> real \<Rightarrow> bool" where
  "has_decimals f x \<longleftrightarrow> parseFloat_toFixed f x = x"

section \<open>Suggestion aggregation (\<open>analyzeSyncPoints\<close>)\<close>

text \<open>
  Every correlation method returns \<open>{offset, correlation}\<close> objects;
  \<open>findEnhancedCorrelation\<close> spreads each into \<open>{offset, correlation, method}\<close>, and
  \<open>weightedResults\<close> adds \<open>weightedScore\<close>.
\<close>

record correlation_result =
  offset :: real
  correlation :: real

record candidate = correlation_result +
  "method" :: string

record weighted = candidate +
  weightedScore :: jsnum

definition methodWeights :: "string \<rightharpoonup> real" where
  "methodWeights = map_of [(''mfcc'', 5 / 10), (''onset'', 3 / 10), (''basic-correlation'', 2 / 10)]"

text \<open>
  \<open>methodWeights\<close> is an object literal, so \<open>methodWeights[key]\<close> finds the own entry
  of the table, else the member of that name that every object inherits from
  \<open>Object.prototype\<close> (a function, or the prototype object itself for \<open>__proto__\<close>), else
  \<open>undefined\<close>. The names below are the members of \<open>Object.prototype\<close> of the language
  standard.
\<close>

definition objectPrototypeKeys :: "string list" where
  "objectPrototypeKeys =
     [''constructor'', ''toString'', ''toLocaleString'', ''valueOf'', ''hasOwnProperty'',
      ''isPrototypeOf'', ''propertyIsEnumerable'', ''__proto__'', ''__defineGetter__'',
      ''__defineSetter__'', ''__lookupGetter__'', ''__lookupSetter__'']"

datatype table_entry = Weight real | Inherited

definition methodWeightsAt :: "string \<Rightarrow> table_entry option" where
  "methodWeightsAt key =
     (case methodWeights key of
        Some w \<Rightarrow> Some (Weight w)
      | None \<Rightarrow> (if key \<in> set objectPrototypeKeys then Some Inherited else None))"

text \<open>
  \<open>result.correlation * (methodWeights[result.method] || 0.1)\<close>: \<open>undefined\<close> and a
  zero weight are falsy and give \<open>0.1\<close>; an inherited member is truthy and is no
  number, so the product with it is \<open>NaN\<close>. A weighted score is a number or \<open>NaN\<close>.
\<close>

definition weightedScoreOf :: "candidate \<Rightarrow> jsnum" where
  "weightedScoreOf result =
     (case methodWeightsAt (method result) of
        None \<Rightarrow> Num (correlation result * (1 / 10))
      | Some (Weight w) \<Rightarrow> Num (correlation result * (if w = 0 then 1 / 10 else w))
      | Some Inherited \<Rightarrow> NaN)"

definition weightedResults :: "candidate list \<Rightarrow> weighted list" where
  "weightedResults enhancedResults =
     map (\<lambda>r. \<lparr>offset = offset r, correlation = correlation r, method = method r,
               weightedScore = weightedScoreOf r\<rparr>) enhancedResults"

text \<open>The number that a score holds (scores are numbers or \<open>NaN\<close>).\<close>

fun numberOf :: "jsnum \<Rightarrow> real" where
  "numberOf (Num x) = x"
| "numberOf _ = 0"

text \<open>
  \<open>sort((a, b) => b.weightedScore - a.weightedScore)\<close>. The difference is \<open>NaN\<close> when
  a score is \<open>NaN\<close>, and the sort reads a \<open>NaN\<close> from its comparator as \<open>0\<close>.
  \<open>comparatorAlwaysZero\<close> says that every comparison of two of the scores is \<open>0\<close>.
\<close>

definition comparatorAlwaysZero :: "jsnum list \<Rightarrow> bool" where
  "comparatorAlwaysZero scores =
     list_all (\<lambda>a. list_all (\<lambda>b. a = NaN \<or> b = NaN \<or> a = b) scores) scores"

text \<open>
  \<open>Array.prototype.sort\<close> is stable, as \<open>sort_key\<close> is; descending order of the scores
  is ascending order of the negated scores. When every comparison is \<open>0\<close> the stable
  sort keeps the order. Otherwise a \<open>NaN\<close> score makes the comparator inconsistent,
  and the language leaves the order to the engine: \<open>engineOrder\<close> is the order the engine
  gives then, a parameter of the model.
\<close>

definition sortedResults :: "(weighted list \<Rightarrow> weighted list) \<Rightarrow> candidate list \<Rightarrow> weighted list" where
  "sortedResults engineOrder enhancedResults =
     (let ws = weightedResults enhancedResults;
          scores = map weightedScore ws
      in if NaN \<notin> set scores then sort_key (\<lambda>r. - numberOf (weightedScore r)) ws
         else if comparatorAlwaysZero scores then ws
         else engineOrder ws)"

text \<open>\<open>sortedResults.slice(0, 3).map(result => result.offset)\<close>\<close>

definition topSuggestions :: "(weighted list \<Rightarrow> weighted list) \<Rightarrow> candidate list \<Rightarrow> real list" where
  "topSuggestions engineOrder enhancedResults =
     map offset (take 3 (sortedResults engineOrder enhancedResults))"

text \<open>
  \<open>bestMatch = suggestions[0]\<close> is \<open>undefined\<close> exactly when the list is empty;
  otherwise \<open>bestMatch + 0.05\<close> and \<open>bestMatch - 0.05\<close> are pushed.
\<close>

definition addVariance :: "real list \<Rightarrow> real list" where
  "addVariance suggestions =
     (case suggestions of
        [] \<Rightarrow> []
      | bestMatch # _ \<Rightarrow> suggestions @ [bestMatch + 5 / 100, bestMatch - 5 / 100])"

definition addZero :: "real list \<Rightarrow> real list" where
  "addZero suggestions = (if 0 \<in> set suggestions then suggestions else suggestions @ [0])"

text \<open>
  \<open>Array.from(new Set(xs))\<close>: the elements in the order of their first insertion.
\<close>

fun set_insert_all :: "'a list \<Rightarrow> 'a list \<Rightarrow> 'a list" where
  "set_insert_all acc [] = acc"
| "set_insert_all acc (x # xs) = set_insert_all (if x \<in> set acc then acc else acc @ [x]) xs"

definition array_from_set :: "'a list \<Rightarrow> 'a list" where
  "array_from_set xs = set_insert_all [] xs"

definition uniqueSuggestions :: "real list \<Rightarrow> real list" where
  "uniqueSuggestions suggestions =
     sort_key abs (filter (\<lambda>offset. offset \<ge> - 5 \<and> offset \<le> 5) (array_from_set suggestions))"

text \<open>The list handed to \<open>setSyncSuggestions\<close>.\<close>

definition syncSuggestions :: "(weighted list \<Rightarrow> weighted list) \<Rightarrow> candidate list \<Rightarrow> real list" where
  "syncSuggestions engineOrder enhancedResults =
     uniqueSuggestions (addZero (addVariance (topSuggestions engineOrder enhancedResults)))"


section \<open>Basic correlation (\<open>findCorrelation\<close>)\<close>

definition sampleRate :: int where
  "sampleRate = 44100"

definition maxSamples :: nat where
  "maxSamples = 44100 * 10"

definition maxOffsetSeconds :: int where
  "maxOffsetSeconds = 5"

definition maxOffsetSamples :: int where
  "maxOffsetSamples = maxOffsetSeconds * sampleRate"

definition stepSize :: int where
  "stepSize = \<lfloor>real_of_int sampleRate * (1 / 10)\<rfloor>"

text \<open>
  The inner loop over \<open>i\<close>: the running \<open>correlation\<close> sum and the \<open>count\<close> of
  overlapping positions, for one \<open>offsetSamples\<close>.
\<close>

definition correlationSums :: "real list \<Rightarrow> real list \<Rightarrow> int \<Rightarrow> real \<times> nat" where
  "correlationSums s1 s2 offsetSamples =
     fold (\<lambda>i (c, n).
             let j = int i + offsetSamples
             in if j \<ge> 0 \<and> j < int (length s2) then (c + s1 ! i * s2 ! nat j, n + 1) else (c, n))
          [0..<length s1] (0, 0)"

text \<open>\<open>correlation = count > 0 ? correlation / count : 0\<close>\<close>

definition correlationAt :: "real list \<Rightarrow> real list \<Rightarrow> int \<Rightarrow> real" where
  "correlationAt s1 s2 offsetSamples =
     (case correlationSums s1 s2 offsetSamples of
        (c, n) \<Rightarrow> if n > 0 then c / real n else 0)"

definition overlapCount :: "real list \<Rightarrow> real list \<Rightarrow> int \<Rightarrow> nat" where
  "overlapCount s1 s2 offsetSamples = snd (correlationSums s1 s2 offsetSamples)"

text \<open>
  The outer loop: \<open>offsetSamples\<close> runs from \<open>-maxOffsetSamples\<close> in steps of
  \<open>stepSize\<close> while it is at most \<open>maxOffsetSamples\<close>, pushing one result each time.
\<close>

function scanOffsets :: "real list \<Rightarrow> real list \<Rightarrow> int \<Rightarrow> correlation_result list" where
  "scanOffsets s1 s2 offsetSamples =
     (if offsetSamples \<le> maxOffsetSamples then
        \<lparr>offset = parseFloat_toFixed 2 (real_of_int offsetSamples / real_of_int sampleRate),
         correlation = correlationAt s1 s2 offsetSamples\<rparr>
        # scanOffsets s1 s2 (offsetSamples + stepSize)
      else [])"
  by pat_completeness auto
termination
  by (relation "measure (\<lambda>(s1, s2, k). nat (maxOffsetSamples - k + 1))")
    (auto simp: stepSize_def sampleRate_def)

declare scanOffsets.simps [simp del]

definition findCorrelation :: "real list \<Rightarrow> real list \<Rightarrow> correlation_result list" where
  "findCorrelation signal1 signal2 =
     (let s1 = take (min (length signal1) maxSamples) signal1;
          s2 = take (min (length signal2) maxSamples) signal2
      in scanOffsets s1 s2 (- maxOffsetSamples))"

text \<open>
  The time that a lag of \<open>lag\<close> samples spans in a track sampled at \<open>rate\<close> samples
  per second. \<open>findCorrelation\<close> is not given the rate of its tracks.
\<close>

definition lagSeconds :: "real \<Rightarrow> int \<Rightarrow> real" where
  "lagSeconds rate lag = real_of_int lag / rate"

section \<open>Onset pattern matching (\<open>matchOnsets\<close>)\<close>

definition maxOffset :: real where
  "maxOffset = 5"

text \<open>
  \<open>patternSimilarity\<close> of the triples starting at \<open>i\<close> and \<open>j\<close>: \<open>1\<close> when both
  inter-onset intervals differ by less than \<open>0.1\<close>, else \<open>0\<close>. It is only evaluated for
  \<open>i < length - 2\<close>, so every index is in range.
\<close>

definition patternSimilarity :: "real list \<Rightarrow> real list \<Rightarrow> nat \<Rightarrow> nat \<Rightarrow> real" where
  "patternSimilarity videoOnsets audioOnsets i j =
     (if \<bar>(videoOnsets ! (i + 1) - videoOnsets ! i) - (audioOnsets ! (j + 1) - audioOnsets ! j)\<bar> < 1 / 10
         \<and> \<bar>(videoOnsets ! (i + 2) - videoOnsets ! (i + 1))
              - (audioOnsets ! (j + 2) - audioOnsets ! (j + 1))\<bar> < 1 / 10
      then 1 else 0)"

text \<open>What one iteration of the inner loop pushes.\<close>

definition onsetPair :: "real list \<Rightarrow> real list \<Rightarrow> nat \<Rightarrow> nat \<Rightarrow> correlation_result list" where
  "onsetPair videoOnsets audioOnsets i j =
     (let patternSimilarity = patternSimilarity videoOnsets audioOnsets i j
      in if patternSimilarity > 0 then
           (let offset = videoOnsets ! i - audioOnsets ! j
            in if \<bar>offset\<bar> \<le> maxOffset then
                 [\<lparr>offset = parseFloat_toFixed 2 offset,
                   correlation = 7 / 10 + 3 / 10 * patternSimilarity\<rparr>]
               else [])
         else [])"

text \<open>
  The two nested loops, \<open>i < videoOnsets.length - 2\<close> and \<open>j < audioOnsets.length - 2\<close>
  (no iteration when a list has fewer than three onsets).
\<close>

definition patternResults :: "real list \<Rightarrow> real list \<Rightarrow> correlation_result list" where
  "patternResults videoOnsets audioOnsets =
     concat (map (\<lambda>i. concat (map (\<lambda>j. onsetPair videoOnsets audioOnsets i j)
                                   [0..<length audioOnsets - 2]))
                 [0..<length videoOnsets - 2])"

definition firstOnsetFallback :: "real list \<Rightarrow> real list \<Rightarrow> correlation_result list" where
  "firstOnsetFallback videoOnsets audioOnsets =
     (let offset = videoOnsets ! 0 - audioOnsets ! 0
      in if \<bar>offset\<bar> \<le> maxOffset then
           [\<lparr>offset = parseFloat_toFixed 2 offset, correlation = 5 / 10\<rparr>]
         else [])"

definition matchOnsets :: "real list \<Rightarrow> real list \<Rightarrow> correlation_result list" where
  "matchOnsets videoOnsets audioOnsets =
     (if length videoOnsets = 0 \<or> length audioOnsets = 0 then []
      else
        (let results = patternResults videoOnsets audioOnsets
         in if length results = 0 \<and> length videoOnsets > 0 \<and> length audioOnsets > 0
            then results @ firstOnsetFallback videoOnsets audioOnsets
            else results))"


section \<open>Waveform construction and retry (\<open>analyzeAudioData\<close>)\<close>

text \<open>
  A quotient of two numbers need not be a number: \<open>0 / 0\<close> is \<open>NaN\<close> and a nonzero
  number over zero is infinite.
\<close>

fun js_div :: "jsnum \<Rightarrow> jsnum \<Rightarrow> jsnum" where
  "js_div NaN _ = NaN"
| "js_div _ NaN = NaN"
| "js_div (Num a) (Num b) =
     (if b \<noteq> 0 then Num (a / b)
      else if a = 0 then NaN else if a > 0 then PosInfinity else NegInfinity)"
| "js_div (Num a) PosInfinity = Num 0"
| "js_div (Num a) NegInfinity = Num 0"
| "js_div PosInfinity (Num b) = (if b < 0 then NegInfinity else PosInfinity)"
| "js_div NegInfinity (Num b) = (if b < 0 then PosInfinity else NegInfinity)"
| "js_div PosInfinity PosInfinity = NaN"
| "js_div PosInfinity NegInfinity = NaN"
| "js_div NegInfinity PosInfinity = NaN"
| "js_div NegInfinity NegInfinity = NaN"

text \<open>\<open>Math.max\<close> of two arguments; \<open>NaN\<close> if either is.\<close>

fun js_max :: "jsnum \<Rightarrow> jsnum \<Rightarrow> jsnum" where
  "js_max NaN _ = NaN"
| "js_max _ NaN = NaN"
| "js_max PosInfinity _ = PosInfinity"
| "js_max _ PosInfinity = PosInfinity"
| "js_max NegInfinity y = y"
| "js_max x NegInfinity = x"
| "js_max (Num a) (Num b) = Num (max a b)"

definition samples :: nat where
  "samples = 150"

text \<open>\<open>rawData[k] || 0\<close>: the sample, or \<open>0\<close> past the end of the buffer.\<close>

definition sampleOrZero :: "real list \<Rightarrow> nat \<Rightarrow> real" where
  "sampleOrZero rawData k = (if k < length rawData then rawData ! k else 0)"

text \<open>The inner loop over \<open>j\<close>: the sum of the absolute values of one block.\<close>

definition blockSum :: "real list \<Rightarrow> nat \<Rightarrow> nat \<Rightarrow> real" where
  "blockSum rawData blockStart blockSize =
     fold (\<lambda>j sum. sum + \<bar>sampleOrZero rawData (blockStart + j)\<bar>) [0..<blockSize] 0"

definition filteredData :: "real list \<Rightarrow> jsnum list" where
  "filteredData rawData =
     (let blockSize = length rawData div samples
      in map (\<lambda>i. js_div (Num (blockSum rawData (blockSize * i) blockSize)) (Num (real blockSize)))
             [0..<samples])"

text \<open>\<open>Math.max(...filteredData, 0.01)\<close>\<close>

definition maxValue :: "jsnum list \<Rightarrow> jsnum" where
  "maxValue fd = fold (\<lambda>x m. js_max m x) (fd @ [Num (1 / 100)]) NegInfinity"

definition normalizedData :: "real list \<Rightarrow> jsnum list" where
  "normalizedData rawData =
     (let fd = filteredData rawData
      in map (\<lambda>n. js_div n (maxValue fd)) fd)"

text \<open>
  The result of \<open>analyzeAudioData\<close>. The feature object comes from the external feature
  library; its extraction is a parameter, \<open>None\<close> standing for the empty object \<open>{}\<close>
  that is kept when the extraction throws.
\<close>

record 'f analysis =
  rawData :: "real list"
  waveform :: "jsnum list"
  features :: "'f option"

text \<open>
  What the network and the decoder answer on one attempt: \<open>None\<close> when \<open>fetch\<close>
  itself rejects, else the response with its \<open>ok\<close> flag, the byte length of its body and
  the first channel of the decoded buffer (\<open>None\<close> when \<open>decodeAudioData\<close> rejects).
\<close>

record response =
  ok :: bool
  byteLength :: nat
  channelData :: "real list option"

datatype analysis_error =
  FetchRejected | FetchNotOk | EmptyBuffer | DecodeFailed | NoSamples

text \<open>The body of the \<open>try\<close> block of \<open>attemptAnalysis\<close>; \<open>Inl\<close> is a throw.\<close>

definition attemptBody ::
  "(real list \<Rightarrow> 'f option) \<Rightarrow> response option \<Rightarrow> analysis_error + 'f analysis" where
  "attemptBody extractAudioFeatures answer =
     (case answer of
        None \<Rightarrow> Inl FetchRejected
      | Some response \<Rightarrow>
          if \<not> ok response then Inl FetchNotOk
          else if byteLength response = 0 then Inl EmptyBuffer
          else (case channelData response of
                  None \<Rightarrow> Inl DecodeFailed
                | Some channel \<Rightarrow>
                    if length channel = 0 then Inl NoSamples
                    else Inr \<lparr>rawData = channel,
                              waveform = normalizedData channel,
                              features = extractAudioFeatures channel\<rparr>))"

definition maxRetries :: nat where
  "maxRetries = 2"

definition placeholderWaveform :: "jsnum list" where
  "placeholderWaveform = map (\<lambda>i. Num (sin (real i * (1 / 10)) * (3 / 10) + 5 / 10)) [0..<150]"

definition placeholderRawData :: "real list" where
  "placeholderRawData = map (\<lambda>i. sin (real i * (1 / 100))) [0..<1000]"

definition placeholder :: "'f analysis" where
  "placeholder = \<lparr>rawData = placeholderRawData, waveform = placeholderWaveform, features = None\<rparr>"

text \<open>
  \<open>attemptAnalysis\<close> with its \<open>catch\<close> block. \<open>retryCount\<close> is the shared counter; it
  is also the number of attempts already made, so the answer of this attempt is
  \<open>answers retryCount\<close>. The counter is returned with the result.
\<close>

function attemptAnalysis ::
  "(real list \<Rightarrow> 'f option) \<Rightarrow> (nat \<Rightarrow> response option) \<Rightarrow> nat \<Rightarrow> nat \<times> 'f analysis" where
  "attemptAnalysis extractAudioFeatures answers retryCount =
     (case attemptBody extractAudioFeatures (answers retryCount) of
        Inr result \<Rightarrow> (retryCount, result)
      | Inl error \<Rightarrow>
          if retryCount < maxRetries
          then attemptAnalysis extractAudioFeatures answers (retryCount + 1)
          else (retryCount, placeholder))"
  by pat_completeness auto
termination
  by (relation "measure (\<lambda>(e, a, retryCount). maxRetries - retryCount)") auto

declare attemptAnalysis.simps [simp del]

definition analyzeAudioData ::
  "(real list \<Rightarrow> 'f option) \<Rightarrow> (nat \<Rightarrow> response option) \<Rightarrow> nat \<times> 'f analysis" where
  "analyzeAudioData extractAudioFeatures answers = attemptAnalysis extractAudioFeatures answers 0"


section \<open>Playback controller (\<open>togglePlayback\<close> and the offset effect)\<close>

datatype playbackMode = Both | Video | Audio

text \<open>The two audio elements: \<open>videoAudioRef\<close> and \<open>uploadedAudioRef\<close>.\<close>

datatype source = VideoAudio | UploadedAudio

record audioElement =
  paused :: bool
  currentTime :: real

definition pause :: "audioElement \<Rightarrow> audioElement" where
  "pause el = el\<lparr>paused := True\<rparr>"

text \<open>
  \<open>play()\<close> on an element the browser lets play. A rejected \<open>play()\<close> is reported
  later, to the \<open>catch\<close> callback, which is \<open>playRejected\<close> below.
\<close>

definition play :: "audioElement \<Rightarrow> audioElement" where
  "play el = el\<lparr>paused := False\<rparr>"

text \<open>
  The state of the component that playback reads and writes. \<open>timers\<close> holds the
  callbacks registered with \<open>setTimeout\<close> and not yet run: the delay in milliseconds
  and the element whose \<open>play()\<close> the callback calls. \<open>playbackTimerRef\<close> is the
  ref that the cleanup code clears; no handle is ever stored in it.
\<close>

record playback =
  videoAudioRef :: "audioElement option"
  uploadedAudioRef :: "audioElement option"
  isPlaying :: bool
  playbackMode :: playbackMode
  playbackProgress :: real
  offsetSeconds :: real
  timers :: "(real \<times> source) list"
  playbackTimerRef :: "nat option"

definition pauseBoth :: "playback \<Rightarrow> playback" where
  "pauseBoth s =
     s\<lparr>videoAudioRef := map_option pause (videoAudioRef s),
       uploadedAudioRef := map_option pause (uploadedAudioRef s)\<rparr>"

definition resetPosition :: "audioElement \<Rightarrow> audioElement" where
  "resetPosition el = pause (el\<lparr>currentTime := 0\<rparr>)"

definition startVideo :: "playbackMode \<Rightarrow> playback \<Rightarrow> playback" where
  "startVideo mode s =
     (if mode = Both \<or> mode = Video
      then s\<lparr>videoAudioRef := map_option play (videoAudioRef s)\<rparr>
      else s)"

definition startAudio :: "playbackMode \<Rightarrow> playback \<Rightarrow> playback" where
  "startAudio mode s =
     (if (mode = Both \<or> mode = Audio) \<and> uploadedAudioRef s \<noteq> None then
        (if offsetSeconds s > 0 then
           s\<lparr>timers := timers s @ [(offsetSeconds s * 1000, UploadedAudio)]\<rparr>
         else
           (let s' = s\<lparr>uploadedAudioRef := map_option play (uploadedAudioRef s)\<rparr>
            in if mode = Both \<and> videoAudioRef s' \<noteq> None
               then s'\<lparr>timers := timers s' @ [(\<bar>offsetSeconds s'\<bar> * 1000, VideoAudio)]\<rparr>
               else s'))
      else s)"

definition togglePlayback :: "playbackMode \<Rightarrow> playback \<Rightarrow> playback" where
  "togglePlayback mode s =
     (if isPlaying s \<and> playbackMode s = mode then
        (pauseBoth s)\<lparr>isPlaying := False, playbackProgress := 0\<rparr>
      else
        (let s1 = s\<lparr>playbackMode := mode\<rparr>;
             s2 = s1\<lparr>videoAudioRef := map_option resetPosition (videoAudioRef s1),
                     uploadedAudioRef := map_option resetPosition (uploadedAudioRef s1)\<rparr>;
             s3 = startVideo mode s2;
             s4 = startAudio mode s3
         in s4\<lparr>isPlaying := True, playbackProgress := 0\<rparr>))"

text \<open>
  The effect with dependency \<open>[offsetSeconds]\<close>, run when the parent passes a new
  offset: it stops a playing session.
\<close>

definition offsetChanged :: "real \<Rightarrow> playback \<Rightarrow> playback" where
  "offsetChanged newOffset s =
     (let s1 = s\<lparr>offsetSeconds := newOffset\<rparr>
      in if isPlaying s1 then (pauseBoth s1)\<lparr>isPlaying := False, playbackProgress := 0\<rparr>
         else s1)"

text \<open>
  The effect on \<open>isPlaying\<close>, when it has become false: it clears the interval named
  by \<open>playbackTimerRef\<close>, if any.
\<close>

definition playbackStopped :: "playback \<Rightarrow> playback" where
  "playbackStopped s = (if \<not> isPlaying s then s\<lparr>playbackTimerRef := None\<rparr> else s)"

text \<open>The \<open>k\<close>-th pending timer fires: its callback plays its element, if present.\<close>

definition timerFires :: "nat \<Rightarrow> playback \<Rightarrow> playback" where
  "timerFires k s =
     (if k < length (timers s) then
        (let s' = s\<lparr>timers := take k (timers s) @ drop (Suc k) (timers s)\<rparr>
         in case snd (timers s ! k) of
              VideoAudio \<Rightarrow> s'\<lparr>videoAudioRef := map_option play (videoAudioRef s')\<rparr>
            | UploadedAudio \<Rightarrow> s'\<lparr>uploadedAudioRef := map_option play (uploadedAudioRef s')\<rparr>)
      else s)"

text \<open>The \<open>catch\<close> callback of a rejected \<open>play()\<close>.\<close>

definition playRejected :: "playback \<Rightarrow> playback" where
  "playRejected s = s\<lparr>isPlaying := False\<rparr>"

text \<open>A mounted component with both elements loaded and nothing playing.\<close>

definition idle :: "real \<Rightarrow> playback" where
  "idle offs =
     \<lparr>videoAudioRef = Some \<lparr>paused = True, currentTime = 0\<rparr>,
      uploadedAudioRef = Some \<lparr>paused = True, currentTime = 0\<rparr>,
      isPlaying = False, playbackMode = Both, playbackProgress = 0,
      offsetSeconds = offs, timers = [], playbackTimerRef = None\<rparr>"

text \<open>Whether an element is producing sound.\<close>

definition sounding :: "audioElement option \<Rightarrow> bool" where
  "sounding el = (case el of None \<Rightarrow> False | Some e \<Rightarrow> \<not> paused e)"

section \<open>Manual offset adjustment\<close>

text \<open>
  \<open>handleMouseMove\<close> of the waveform component: the value passed to
  \<open>onOffsetChange\<close>, or \<open>None\<close> when the handler returns early (no drag, or no
  container). \<open>deltaX / containerWidth\<close> is not a number for a container of width zero
  and no horizontal movement, and infinite for a container of width zero otherwise; the
  clamp turns an infinite value into a bound and \<open>parseFloat(NaN.toFixed(1))\<close> is
  \<open>NaN\<close>.
\<close>

definition handleMouseMove :: "bool \<Rightarrow> nat option \<Rightarrow> real \<Rightarrow> real \<Rightarrow> real \<Rightarrow> jsnum option" where
  "handleMouseMove isDragging container dragStartX dragStartOffset clientX =
     (case container of
        None \<Rightarrow> None
      | Some containerWidth \<Rightarrow>
          if \<not> isDragging then None
          else
            (let deltaX = clientX - dragStartX
             in if containerWidth = 0 then
                  (if deltaX = 0 then Some NaN
                   else if deltaX > 0 then Some (Num (parseFloat_toFixed 1 5))
                   else Some (Num (parseFloat_toFixed 1 (- 5))))
                else
                  (let deltaSeconds = (deltaX / real containerWidth) * 10;
                       newOffset = max (- 5) (min 5 (dragStartOffset + deltaSeconds))
                   in Some (Num (parseFloat_toFixed 1 newOffset)))))"

text \<open>
  The keyboard shortcuts of the page that change the offset: \<open>syncOptions.offset\<close> after
  \<open>handleKeyDown\<close>. The offset is optional in \<open>syncOptions\<close>; \<open>offset || 0\<close> reads a
  missing one as \<open>0\<close>. A key event whose target is a text input is ignored.
\<close>

datatype key = ShiftArrowLeft | ShiftArrowRight | OtherKey

definition handleKeyDown :: "bool \<Rightarrow> key \<Rightarrow> real option \<Rightarrow> real option" where
  "handleKeyDown targetIsInput k syncOffset =
     (if targetIsInput then syncOffset
      else
        (case k of
           ShiftArrowLeft \<Rightarrow> Some ((case syncOffset of None \<Rightarrow> 0 | Some x \<Rightarrow> x) - 1 / 10)
         | ShiftArrowRight \<Rightarrow> Some ((case syncOffset of None \<Rightarrow> 0 | Some x \<Rightarrow> x) + 1 / 10)
         | OtherKey \<Rightarrow> syncOffset))"


section \<open>Properties of the number printing\<close>

lemma toFixed_of_int:
  "parseFloat_toFixed f (real_of_int k / 10 ^ f) = real_of_int k / 10 ^ f"
proof (cases "k < 0")
  case True
  then have neg: "real_of_int k / 10 ^ f < 0"
    by (simp add: divide_neg_pos)
  have "\<lfloor>real_of_int (- k) + 1 / 2\<rfloor> = - k"
    by (simp add: floor_unique)
  then have "\<lfloor>- (real_of_int k / 10 ^ f) * 10 ^ f + 1 / 2\<rfloor> = - k"
    by simp
  with neg show ?thesis
    by (simp add: parseFloat_toFixed_def)
next
  case False
  then have nonneg: "\<not> real_of_int k / 10 ^ f < 0"
    by (simp add: not_less)
  have "\<lfloor>real_of_int k + 1 / 2\<rfloor> = k"
    by (simp add: floor_unique)
  then have "\<lfloor>real_of_int k / 10 ^ f * 10 ^ f + 1 / 2\<rfloor> = k"
    by simp
  with nonneg show ?thesis
    by (simp add: parseFloat_toFixed_def)
qed

lemma toFixed_form:
  "\<exists>k. parseFloat_toFixed f x = real_of_int k / 10 ^ f"
proof (cases "x < 0")
  case True
  then have "parseFloat_toFixed f x = real_of_int (- \<lfloor>(- x) * 10 ^ f + 1 / 2\<rfloor>) / 10 ^ f"
    by (simp add: parseFloat_toFixed_def)
  then show ?thesis by blast
next
  case False
  then have "parseFloat_toFixed f x = real_of_int \<lfloor>x * 10 ^ f + 1 / 2\<rfloor> / 10 ^ f"
    by (simp add: parseFloat_toFixed_def)
  then show ?thesis by blast
qed

lemma toFixed_idem: "has_decimals f (parseFloat_toFixed f x)"
proof -
  obtain k where "parseFloat_toFixed f x = real_of_int k / 10 ^ f"
    using toFixed_form by blast
  then show ?thesis
    by (simp add: has_decimals_def toFixed_of_int)
qed

lemma toFixed_nonneg_le:
  assumes "0 \<le> y" "y \<le> real_of_int n"
  shows "real_of_int \<lfloor>y * 10 ^ f + 1 / 2\<rfloor> / 10 ^ f \<le> real_of_int n"
    and "0 \<le> real_of_int \<lfloor>y * 10 ^ f + 1 / 2\<rfloor> / 10 ^ f"
proof -
  have "y * 10 ^ f \<le> real_of_int n * 10 ^ f"
    using assms by (simp add: mult_right_mono)
  moreover have "real_of_int (n * 10 ^ f + 1) = real_of_int n * 10 ^ f + 1"
    by simp
  ultimately have "y * 10 ^ f + 1 / 2 < real_of_int (n * 10 ^ f + 1)"
    by linarith
  then have "\<lfloor>y * 10 ^ f + 1 / 2\<rfloor> < n * 10 ^ f + 1"
    by (rule floor_less_iff [THEN iffD2])
  then have "\<lfloor>y * 10 ^ f + 1 / 2\<rfloor> \<le> n * 10 ^ f"
    by linarith
  then have "real_of_int \<lfloor>y * 10 ^ f + 1 / 2\<rfloor> \<le> real_of_int (n * 10 ^ f)"
    by (rule of_int_le_iff [THEN iffD2])
  then show "real_of_int \<lfloor>y * 10 ^ f + 1 / 2\<rfloor> / 10 ^ f \<le> real_of_int n"
    by (simp add: pos_divide_le_eq)
  have "0 \<le> y * 10 ^ f + 1 / 2"
    using assms by simp
  then have "0 \<le> \<lfloor>y * 10 ^ f + 1 / 2\<rfloor>"
    by simp
  then show "0 \<le> real_of_int \<lfloor>y * 10 ^ f + 1 / 2\<rfloor> / 10 ^ f"
    by simp
qed

lemma toFixed_abs_le:
  assumes "\<bar>x\<bar> \<le> real_of_int n"
  shows "\<bar>parseFloat_toFixed f x\<bar> \<le> real_of_int n"
proof (cases "x < 0")
  case True
  then have "0 \<le> - x" "- x \<le> real_of_int n"
    using assms by simp_all
  from toFixed_nonneg_le [OF this, of f] True show ?thesis
    by (simp add: parseFloat_toFixed_def)
next
  case False
  then have "0 \<le> x" "x \<le> real_of_int n"
    using assms by simp_all
  from toFixed_nonneg_le [OF this, of f] False show ?thesis
    by (simp add: parseFloat_toFixed_def)
qed

lemma toFixed_range5:
  assumes "- 5 \<le> x" "x \<le> 5"
  shows "- 5 \<le> parseFloat_toFixed f x \<and> parseFloat_toFixed f x \<le> 5"
proof -
  have "\<bar>x\<bar> \<le> real_of_int 5"
    using assms by simp
  then have "\<bar>parseFloat_toFixed f x\<bar> \<le> real_of_int 5"
    by (rule toFixed_abs_le)
  then show ?thesis
    by (simp add: abs_le_iff)
qed


section \<open>Properties of the suggestion aggregation\<close>

lemma set_insert_all_set: "set (set_insert_all acc xs) = set acc \<union> set xs"
  by (induction xs arbitrary: acc) auto

lemma set_insert_all_distinct: "distinct acc \<Longrightarrow> distinct (set_insert_all acc xs)"
  by (induction xs arbitrary: acc) auto

lemma array_from_set_set: "set (array_from_set xs) = set xs"
  by (simp add: array_from_set_def set_insert_all_set)

lemma array_from_set_distinct: "distinct (array_from_set xs)"
  by (simp add: array_from_set_def set_insert_all_distinct)








text \<open>
  Claim C1, as amended. For every candidate list (and whatever order the engine gives
  to candidates whose score is not a number), every offset of the suggestion list lies
  in \<open>[-5, 5]\<close> and no two suggestions are equal. (The aggregation rounds nothing: the
  candidates keep their two fraction digits and the two variations lie \<open>0.05\<close> from the
  best match.)
\<close>

theorem suggestions_in_range_distinct:
  "set (syncSuggestions engineOrder enhancedResults) \<subseteq> {- 5 .. 5}
   \<and> distinct (syncSuggestions engineOrder enhancedResults)"
  by (auto simp: syncSuggestions_def uniqueSuggestions_def array_from_set_distinct)

text \<open>
  Claim C1 as stated fails: from the single onset candidate at \<open>0.09\<close> the suggestions
  are \<open>0, 0.04, 0.09, 0.14\<close>; \<open>0.09\<close> has more than one fraction digit, and \<open>0.09\<close>
  and \<open>0.14\<close> are equal after rounding to \<open>0.1\<close>.
\<close>

theorem suggestions_not_rounded_counterexample:
  "syncSuggestions (\<lambda>ws. ws) [\<lparr>offset = 9 / 100, correlation = 1 / 2, method = ''onset''\<rparr>]
     = [0, 4 / 100, 9 / 100, 14 / 100]
   \<and> \<not> has_decimals 1 (9 / 100)
   \<and> parseFloat_toFixed 1 (9 / 100) = parseFloat_toFixed 1 (14 / 100)"
  by (simp add: syncSuggestions_def uniqueSuggestions_def addZero_def addVariance_def
      topSuggestions_def sortedResults_def weightedResults_def weightedScoreOf_def
      methodWeightsAt_def methodWeights_def array_from_set_def
      has_decimals_def parseFloat_toFixed_def)





section \<open>Properties of the playback controller\<close>

lemma offsetChanged_stops:
  assumes "isPlaying s"
  shows "\<not> isPlaying (offsetChanged newOffset s)
    \<and> \<not> sounding (videoAudioRef (offsetChanged newOffset s))
    \<and> \<not> sounding (uploadedAudioRef (offsetChanged newOffset s))
    \<and> playbackProgress (offsetChanged newOffset s) = 0"
  using assms
  by (simp add: offsetChanged_def pauseBoth_def sounding_def pause_def split: option.splits)

lemma offsetChanged_keeps_timers:
  "timers (offsetChanged newOffset s) = timers s"
  by (simp add: offsetChanged_def pauseBoth_def Let_def)

lemma playbackStopped_keeps_timers:
  "timers (playbackStopped s) = timers s"
  by (simp add: playbackStopped_def)

text \<open>
  Claim C2: a change of the offset during playback cancels the session, the pending
  deferred start included. The code stops the session but keeps the timer: after playback
  of both tracks is started with offset \<open>1.5\<close> and the offset is changed to \<open>2\<close>, the
  deferred start of the uploaded audio is still pending, and when it fires the audio
  sounds while \<open>isPlaying\<close> is false.
\<close>

theorem offset_change_deferred_start_fires:
  "isPlaying (togglePlayback Both (idle (3 / 2)))
   \<and> timers (togglePlayback Both (idle (3 / 2))) = [(1500, UploadedAudio)]
   \<and> \<not> isPlaying (offsetChanged 2 (togglePlayback Both (idle (3 / 2))))
   \<and> timers (playbackStopped (offsetChanged 2 (togglePlayback Both (idle (3 / 2)))))
       = [(1500, UploadedAudio)]
   \<and> \<not> isPlaying (timerFires 0 (playbackStopped (offsetChanged 2 (togglePlayback Both (idle (3 / 2))))))
   \<and> sounding (uploadedAudioRef
        (timerFires 0 (playbackStopped (offsetChanged 2 (togglePlayback Both (idle (3 / 2)))))))"
  by (simp add: togglePlayback_def idle_def startVideo_def startAudio_def offsetChanged_def
      playbackStopped_def timerFires_def pauseBoth_def pause_def play_def resetPosition_def
      sounding_def)

lemma start_both_positive:
  assumes "offs > 0"
  shows "sounding (videoAudioRef (togglePlayback Both (idle offs)))
    \<and> \<not> sounding (uploadedAudioRef (togglePlayback Both (idle offs)))
    \<and> timers (togglePlayback Both (idle offs)) = [(offs * 1000, UploadedAudio)]"
  using assms
  by (simp add: togglePlayback_def idle_def startVideo_def startAudio_def
      pause_def play_def resetPosition_def sounding_def)

lemma start_video_only:
  "sounding (videoAudioRef (togglePlayback Video (idle offs)))
    \<and> \<not> sounding (uploadedAudioRef (togglePlayback Video (idle offs)))
    \<and> timers (togglePlayback Video (idle offs)) = []"
  by (simp add: togglePlayback_def idle_def startVideo_def startAudio_def
      pause_def play_def resetPosition_def sounding_def)

lemma start_audio_only_nonpositive:
  assumes "offs \<le> 0"
  shows "\<not> sounding (videoAudioRef (togglePlayback Audio (idle offs)))
    \<and> sounding (uploadedAudioRef (togglePlayback Audio (idle offs)))
    \<and> timers (togglePlayback Audio (idle offs)) = []"
  using assms
  by (simp add: togglePlayback_def idle_def startVideo_def startAudio_def
      pause_def play_def resetPosition_def sounding_def)

text \<open>
  Claim C3: with a negative offset in \<open>both\<close> mode the video audio is deferred, and in
  a single-track mode the track starts without delay. The code starts the video audio at
  once for offset \<open>-1.5\<close> in \<open>both\<close> mode (the deferred \<open>play()\<close> comes on top), and
  in \<open>audio\<close> mode with offset \<open>1.5\<close> it does not start the uploaded audio but defers
  it by 1500 ms.
\<close>

theorem start_scheduling_divergence:
  "sounding (videoAudioRef (togglePlayback Both (idle (- (3 / 2)))))
   \<and> sounding (uploadedAudioRef (togglePlayback Both (idle (- (3 / 2)))))
   \<and> timers (togglePlayback Both (idle (- (3 / 2)))) = [(1500, VideoAudio)]
   \<and> \<not> sounding (uploadedAudioRef (togglePlayback Audio (idle (3 / 2))))
   \<and> timers (togglePlayback Audio (idle (3 / 2))) = [(1500, UploadedAudio)]"
  by (simp add: togglePlayback_def idle_def startVideo_def startAudio_def
      pause_def play_def resetPosition_def sounding_def)


section \<open>Properties of the manual offset adjustment\<close>

lemma handleMouseMove_clamped:
  assumes "handleMouseMove isDragging container dragStartX dragStartOffset clientX = Some (Num v)"
  shows "- 5 \<le> v \<and> v \<le> 5 \<and> has_decimals 1 v"
proof -
  from assms obtain x where v: "v = parseFloat_toFixed 1 x" and x: "- 5 \<le> x" "x \<le> 5"
    by (auto simp: handleMouseMove_def Let_def split: option.splits if_splits)
  show ?thesis
    using toFixed_range5 [OF x, of 1] toFixed_idem [of 1 x] v by simp
qed

text \<open>
  Claim C9: every manually requested offset is clamped into \<open>[-5, 5]\<close>. Dragging
  clamps (\<open>handleMouseMove_clamped\<close>); the keyboard shortcut does not: from \<open>5\<close> it
  stores \<open>5.1\<close>, and from \<open>-5\<close> it stores \<open>-5.1\<close>.
\<close>

theorem key_offset_unclamped:
  "handleKeyDown False ShiftArrowRight (Some 5) = Some (51 / 10)
   \<and> \<not> (51 / 10 \<le> (5::real))
   \<and> handleKeyDown False ShiftArrowLeft (Some (- 5)) = Some (- (51 / 10))
   \<and> \<not> (- 5 \<le> - (51 / 10 :: real))"
  by (simp add: handleKeyDown_def)


section \<open>Properties of the waveform construction\<close>

lemma fold_js_max_NaN: "fold (\<lambda>x m. js_max m x) xs NaN = NaN"
  by (induction xs) simp_all

lemma maxValue_NaN: "NaN \<in> set fd \<Longrightarrow> maxValue fd = NaN"
proof -
  assume "NaN \<in> set fd"
  then obtain ys zs where fd: "fd = ys @ NaN # zs"
    by (auto simp: in_set_conv_decomp)
  have "js_max m NaN = NaN" for m
    by (cases m) simp_all
  then show ?thesis
    by (simp add: maxValue_def fd fold_js_max_NaN)
qed

lemma filteredData_short:
  assumes "length data < 150"
  shows "filteredData data = replicate 150 NaN"
proof -
  have "length data div samples = 0"
    using assms by (simp add: samples_def)
  then have "filteredData data = map (\<lambda>i. NaN) [0..<samples]"
    by (simp add: filteredData_def blockSum_def)
  then show ?thesis
    by (simp add: samples_def map_replicate_const)
qed

lemma normalizedData_short:
  assumes "length data < 150"
  shows "normalizedData data = replicate 150 NaN"
proof -
  have fd: "filteredData data = replicate 150 NaN"
    using assms by (rule filteredData_short)
  have "maxValue (replicate 150 NaN) = NaN"
    by (rule maxValue_NaN) simp
  then show ?thesis
    by (simp add: normalizedData_def fd)
qed

lemma fold_abs_nonneg: "a \<le> fold (\<lambda>j sum. sum + \<bar>g j\<bar>) js (a::real)"
proof (induction js arbitrary: a)
  case Nil
  show ?case by simp
next
  case (Cons j js)
  have "a \<le> a + \<bar>g j\<bar>" by simp
  also have "\<dots> \<le> fold (\<lambda>j sum. sum + \<bar>g j\<bar>) js (a + \<bar>g j\<bar>)"
    by (rule Cons.IH)
  finally show ?case by simp
qed

lemma blockSum_nonneg: "0 \<le> blockSum data blockStart blockSize"
  unfolding blockSum_def by (rule fold_abs_nonneg)

lemma fold_js_max_Num:
  "fold (\<lambda>x m. js_max m x) (map Num vs) (Num a) = Num (Max (insert a (set vs)))"
proof (induction vs arbitrary: a)
  case Nil
  show ?case by simp
next
  case (Cons v vs)
  have "Max (insert (max a v) (set vs)) = Max (insert a (insert v (set vs)))"
    by (metis List.finite_set Max_insert Max_singleton finite.insertI max.assoc insert_not_empty)
  then show ?case
    by (simp add: Cons.IH)
qed

lemma maxValue_Num:
  "maxValue (map Num vs) = Num (Max (insert (1 / 100) (set vs)))"
proof (cases vs)
  case Nil
  then show ?thesis by (simp add: maxValue_def)
next
  case (Cons v ws)
  have "fold (\<lambda>x m. js_max m x) (map Num (ws @ [1 / 100])) (Num v)
      = Num (Max (insert v (set (ws @ [1 / 100]))))"
    by (rule fold_js_max_Num)
  then show ?thesis
    by (simp add: maxValue_def Cons insert_commute)
qed

text \<open>
  From 150 samples on, the waveform has 150 values, each a number in \<open>[0, 1]\<close>.
\<close>

lemma normalizedData_long:
  assumes "150 \<le> length data"
  shows "length (normalizedData data) = 150
    \<and> (\<forall>x \<in> set (normalizedData data). \<exists>v. x = Num v \<and> 0 \<le> v \<and> v \<le> 1)"
proof -
  define b where "b = length data div samples"
  define vs where "vs = map (\<lambda>i. blockSum data (b * i) b / real b) [0..<samples]"
  define m where "m = Max (insert (1 / 100) (set vs))"
  have b: "0 < b"
    using assms by (simp add: b_def samples_def div_greater_zero_iff)
  have fd: "filteredData data = map Num vs"
    using b by (simp add: filteredData_def vs_def b_def [symmetric] Let_def comp_def)
  have mv: "maxValue (map Num vs) = Num m"
    by (simp add: maxValue_Num m_def)
  have m_pos: "0 < m"
  proof -
    have "1 / 100 \<le> m"
      unfolding m_def by (rule Max_ge) simp_all
    then show ?thesis by simp
  qed
  have vs_le: "v \<le> m" if "v \<in> set vs" for v
    unfolding m_def using that by (intro Max_ge) simp_all
  have vs_nonneg: "0 \<le> v" if "v \<in> set vs" for v
    using that b by (auto simp: vs_def blockSum_nonneg)
  have nd: "normalizedData data = map (\<lambda>v. Num (v / m)) vs"
    using m_pos by (simp add: normalizedData_def Let_def mv fd comp_def)
  have len: "length (normalizedData data) = 150"
    by (simp add: nd vs_def samples_def)
  have rng: "\<exists>v. x = Num v \<and> 0 \<le> v \<and> v \<le> 1" if "x \<in> set (normalizedData data)" for x
  proof -
    from that obtain v where v: "v \<in> set vs" and x: "x = Num (v / m)"
      by (auto simp: nd)
    have "0 \<le> v / m" using vs_nonneg [OF v] m_pos by simp
    moreover have "v / m \<le> 1" using vs_le [OF v] m_pos by simp
    ultimately show ?thesis using x by blast
  qed
  show ?thesis using len rng by blast
qed

text \<open>
  Claim C4: for every non-empty sample sequence the waveform has 150 values in
  \<open>[0, 1]\<close>. The code divides each block sum by \<open>blockSize = floor(length / 150)\<close>,
  which is \<open>0\<close> for fewer than 150 samples: for the one-sample buffer \<open>[0.5]\<close> the
  waveform has 150 values and each is \<open>NaN\<close>.
\<close>

theorem waveform_short_input_is_NaN:
  "length (normalizedData [1 / 2]) = 150 \<and> set (normalizedData [1 / 2]) = {NaN}"
  using normalizedData_short [of "[1 / 2]"] by simp


section \<open>Properties of the retry policy\<close>

lemma attemptBody_success:
  assumes "attemptBody feat answer = Inr r"
  shows "\<exists>resp. answer = Some resp \<and> ok resp \<and> 0 < byteLength resp
           \<and> channelData resp = Some (rawData r)"
    and "rawData r \<noteq> []"
    and "waveform r = normalizedData (rawData r)"
    and "features r = feat (rawData r)"
  using assms
  by (auto simp: attemptBody_def split: option.splits if_splits)

lemma attemptAnalysis_Inr:
  "attemptBody feat (answers n) = Inr r \<Longrightarrow> attemptAnalysis feat answers n = (n, r)"
  by (subst attemptAnalysis.simps) simp

lemma attemptAnalysis_Inl_retry:
  "attemptBody feat (answers n) = Inl e \<Longrightarrow> n < maxRetries
   \<Longrightarrow> attemptAnalysis feat answers n = attemptAnalysis feat answers (n + 1)"
  by (subst attemptAnalysis.simps) simp

lemma attemptAnalysis_Inl_last:
  "attemptBody feat (answers n) = Inl e \<Longrightarrow> \<not> n < maxRetries
   \<Longrightarrow> attemptAnalysis feat answers n = (n, placeholder)"
  by (subst attemptAnalysis.simps) simp

lemma attemptAnalysis_retries:
  "n \<le> maxRetries \<Longrightarrow> fst (attemptAnalysis feat answers n) \<le> maxRetries"
proof (induction feat answers n rule: attemptAnalysis.induct)
  case (1 feat answers n)
  show ?case
  proof (cases "attemptBody feat (answers n)")
    case (Inr r)
    then show ?thesis using "1.prems" by (simp add: attemptAnalysis_Inr)
  next
    case (Inl e)
    show ?thesis
    proof (cases "n < maxRetries")
      case True
      then have "fst (attemptAnalysis feat answers (n + 1)) \<le> maxRetries"
        using "1.IH" [OF Inl True] by simp
      then show ?thesis using Inl True by (simp add: attemptAnalysis_Inl_retry)
    next
      case False
      then show ?thesis using Inl "1.prems" by (simp add: attemptAnalysis_Inl_last)
    qed
  qed
qed

lemma attemptAnalysis_exhausted:
  "n \<le> maxRetries \<Longrightarrow> \<forall>j. n \<le> j \<and> j \<le> maxRetries \<longrightarrow> isl (attemptBody feat (answers j))
   \<Longrightarrow> attemptAnalysis feat answers n = (maxRetries, placeholder)"
proof (induction feat answers n rule: attemptAnalysis.induct)
  case (1 feat answers n)
  from "1.prems" have "isl (attemptBody feat (answers n))"
    by simp
  then obtain e where Inl: "attemptBody feat (answers n) = Inl e"
    by (auto simp: isl_def)
  show ?case
  proof (cases "n < maxRetries")
    case True
    have "attemptAnalysis feat answers (n + 1) = (maxRetries, placeholder)"
      using "1.IH" [OF Inl True] True "1.prems"(2) by simp
    then show ?thesis using Inl True by (simp add: attemptAnalysis_Inl_retry)
  next
    case False
    then have "n = maxRetries" using "1.prems"(1) by simp
    then show ?thesis using Inl False by (simp add: attemptAnalysis_Inl_last)
  qed
qed

lemma attemptAnalysis_first_success:
  "n \<le> k \<Longrightarrow> k \<le> maxRetries
   \<Longrightarrow> \<forall>j. n \<le> j \<and> j < k \<longrightarrow> isl (attemptBody feat (answers j))
   \<Longrightarrow> attemptBody feat (answers k) = Inr r
   \<Longrightarrow> attemptAnalysis feat answers n = (k, r)"
proof (induction feat answers n rule: attemptAnalysis.induct)
  case (1 feat answers n)
  show ?case
  proof (cases "n = k")
    case True
    then show ?thesis using "1.prems"(4) by (simp add: attemptAnalysis_Inr)
  next
    case False
    then have lt: "n < k" using "1.prems"(1) by simp
    then have "isl (attemptBody feat (answers n))"
      using "1.prems"(3) by simp
    then obtain e where Inl: "attemptBody feat (answers n) = Inl e"
      by (auto simp: isl_def)
    have retry: "n < maxRetries" using lt "1.prems"(2) by simp
    have "attemptAnalysis feat answers (n + 1) = (k, r)"
      using "1.IH" [OF Inl retry] lt "1.prems"(2,3,4) by simp
    then show ?thesis using Inl retry by (simp add: attemptAnalysis_Inl_retry)
  qed
qed

lemma attemptAnalysis_result:
  "n \<le> maxRetries
   \<Longrightarrow> snd (attemptAnalysis feat answers n) = placeholder
       \<or> (\<exists>k\<le>maxRetries. attemptBody feat (answers k) = Inr (snd (attemptAnalysis feat answers n)))"
proof (induction feat answers n rule: attemptAnalysis.induct)
  case (1 feat answers n)
  show ?case
  proof (cases "attemptBody feat (answers n)")
    case (Inr r)
    then have "attemptBody feat (answers n) = Inr (snd (attemptAnalysis feat answers n))"
      by (simp add: attemptAnalysis_Inr)
    then show ?thesis using "1.prems" by blast
  next
    case (Inl e)
    show ?thesis
    proof (cases "n < maxRetries")
      case True
      have "attemptAnalysis feat answers n = attemptAnalysis feat answers (n + 1)"
        using Inl True by (rule attemptAnalysis_Inl_retry)
      moreover have "snd (attemptAnalysis feat answers (n + 1)) = placeholder
       \<or> (\<exists>k\<le>maxRetries. attemptBody feat (answers k)
              = Inr (snd (attemptAnalysis feat answers (n + 1))))"
        using "1.IH" [OF Inl True] True by simp
      ultimately show ?thesis by simp
    next
      case False
      then show ?thesis using Inl by (simp add: attemptAnalysis_Inl_last)
    qed
  qed
qed

lemma placeholder_values:
  "length (waveform (placeholder :: 'f analysis)) = 150"
  "length (rawData (placeholder :: 'f analysis)) = 1000"
  "i < 150 \<Longrightarrow> waveform (placeholder :: 'f analysis) ! i
     = Num (sin (real i * (1 / 10)) * (3 / 10) + 5 / 10)"
  "i < 1000 \<Longrightarrow> rawData (placeholder :: 'f analysis) ! i = sin (real i * (1 / 100))"
  by (simp_all add: placeholder_def placeholderWaveform_def placeholderRawData_def)

lemma placeholder_waveform_range:
  assumes "x \<in> set (waveform (placeholder :: 'f analysis))"
  shows "\<exists>v. x = Num v \<and> 2 / 10 \<le> v \<and> v \<le> 8 / 10"
proof -
  from assms obtain i :: nat where x: "x = Num (sin (real i * (1 / 10)) * (3 / 10) + 5 / 10)"
    by (auto simp: placeholder_def placeholderWaveform_def)
  define s where "s = sin (real i * (1 / 10))"
  have "- 1 \<le> s" "s \<le> 1"
    unfolding s_def by (rule sin_ge_minus_one, rule sin_le_one)
  then have "2 / 10 \<le> s * (3 / 10) + 5 / 10" "s * (3 / 10) + 5 / 10 \<le> 8 / 10"
    by linarith+
  then show ?thesis
    using x unfolding s_def by blast
qed

text \<open>
  The retry policy. \<open>analyzeAudioData\<close> always returns a result (the model has no
  failing branch). It retries at most twice; when all three attempts fail it returns the
  fixed placeholder, the same for every call; and when attempt \<open>k \<le> 2\<close> is the first
  to succeed it returns the result of that attempt, whose raw data are the decoded
  samples. Every result is the placeholder or the result of a successful attempt. The
  placeholder has the 150 waveform values \<open>sin(0.1 i) * 0.3 + 0.5\<close> and the 1000 raw
  samples \<open>sin(0.01 i)\<close>.
\<close>

lemma analyzeAudioData_retry_then_placeholder:
  "fst (analyzeAudioData feat answers) \<le> 2
   \<and> ((\<forall>k\<le>2. isl (attemptBody feat (answers k)))
        \<longrightarrow> analyzeAudioData feat answers = (2, placeholder))
   \<and> (k \<le> 2 \<and> (\<forall>j<k. isl (attemptBody feat (answers j)))
        \<and> attemptBody feat (answers k) = Inr r
        \<longrightarrow> analyzeAudioData feat answers = (k, r)
            \<and> (\<exists>resp. answers k = Some resp \<and> channelData resp = Some (rawData r))
            \<and> rawData r \<noteq> []
            \<and> waveform r = normalizedData (rawData r))
   \<and> (snd (analyzeAudioData feat answers) = placeholder
        \<or> (\<exists>k\<le>2. attemptBody feat (answers k) = Inr (snd (analyzeAudioData feat answers))))
   \<and> waveform (placeholder :: 'f analysis)
       = map (\<lambda>i. Num (sin (real i * (1 / 10)) * (3 / 10) + 5 / 10)) [0..<150]
   \<and> rawData (placeholder :: 'f analysis) = map (\<lambda>i. sin (real i * (1 / 100))) [0..<1000]"
proof -
  have a: "fst (analyzeAudioData feat answers) \<le> 2"
    using attemptAnalysis_retries [of 0 feat answers]
    by (simp add: analyzeAudioData_def maxRetries_def)
  have b: "(\<forall>k\<le>2. isl (attemptBody feat (answers k)))
        \<longrightarrow> analyzeAudioData feat answers = (2, placeholder)"
    using attemptAnalysis_exhausted [of 0 feat answers]
    by (simp add: analyzeAudioData_def maxRetries_def)
  have c: "k \<le> 2 \<and> (\<forall>j<k. isl (attemptBody feat (answers j)))
        \<and> attemptBody feat (answers k) = Inr r
        \<longrightarrow> analyzeAudioData feat answers = (k, r)
            \<and> (\<exists>resp. answers k = Some resp \<and> channelData resp = Some (rawData r))
            \<and> rawData r \<noteq> []
            \<and> waveform r = normalizedData (rawData r)"
  proof (intro impI, elim conjE)
    assume k: "k \<le> 2" and fails: "\<forall>j<k. isl (attemptBody feat (answers j))"
      and ok: "attemptBody feat (answers k) = Inr r"
    have "analyzeAudioData feat answers = (k, r)"
      using attemptAnalysis_first_success [of 0 k feat answers r] k fails ok
      by (simp add: analyzeAudioData_def maxRetries_def)
    then show "analyzeAudioData feat answers = (k, r)
            \<and> (\<exists>resp. answers k = Some resp \<and> channelData resp = Some (rawData r))
            \<and> rawData r \<noteq> []
            \<and> waveform r = normalizedData (rawData r)"
      using attemptBody_success [OF ok] by blast
  qed
  have d: "snd (analyzeAudioData feat answers) = placeholder
        \<or> (\<exists>k\<le>2. attemptBody feat (answers k) = Inr (snd (analyzeAudioData feat answers)))"
    using attemptAnalysis_result [of 0 feat answers]
    by (simp add: analyzeAudioData_def maxRetries_def)
  have e: "waveform (placeholder :: 'f analysis)
       = map (\<lambda>i. Num (sin (real i * (1 / 10)) * (3 / 10) + 5 / 10)) [0..<150]"
    "rawData (placeholder :: 'f analysis) = map (\<lambda>i. sin (real i * (1 / 100))) [0..<1000]"
    by (simp_all only: placeholder_def placeholderRawData_def placeholderWaveform_def
        analysis.simps)
  show ?thesis
    by (intro conjI a b c d e)
qed

text \<open>
  Claim C7: \<open>analyzeAudioData\<close> never returns an unusable result. The retry policy and
  the placeholder are as the claim says (\<open>analyzeAudioData_retry_then_placeholder\<close>),
  but an attempt that succeeds returns the waveform that the construction gives: for a
  decoded buffer of two samples, on the first attempt, the result carries the decoded
  samples and a waveform of 150 values that are all \<open>NaN\<close>.
\<close>

theorem analyzeAudioData_short_decode_unusable:
  "analyzeAudioData (\<lambda>d. None :: unit option)
     (\<lambda>k. Some \<lparr>ok = True, byteLength = 48, channelData = Some [1 / 2, 1 / 4]\<rparr>)
   = (0, \<lparr>rawData = [1 / 2, 1 / 4], waveform = replicate 150 NaN, features = None\<rparr>)"
proof -
  let ?f = "\<lambda>d::real list. None :: unit option"
  let ?a = "\<lambda>k::nat. Some \<lparr>ok = True, byteLength = 48, channelData = Some [1 / 2, 1 / 4]\<rparr>"
  have "normalizedData [1 / 2, 1 / 4] = replicate 150 NaN"
    by (rule normalizedData_short) simp
  then have "attemptBody ?f (?a 0)
      = Inr \<lparr>rawData = [1 / 2, 1 / 4], waveform = replicate 150 NaN, features = None\<rparr>"
    by (simp add: attemptBody_def)
  then show ?thesis
    unfolding analyzeAudioData_def by (rule attemptAnalysis_Inr)
qed


section \<open>Properties of the onset pattern matching\<close>

lemma onsetPair_range:
  "r \<in> set (onsetPair videoOnsets audioOnsets i j) \<Longrightarrow> - 5 \<le> offset r \<and> offset r \<le> 5"
proof -
  assume "r \<in> set (onsetPair videoOnsets audioOnsets i j)"
  then have r: "offset r = parseFloat_toFixed 2 (videoOnsets ! i - audioOnsets ! j)"
    and b: "\<bar>videoOnsets ! i - audioOnsets ! j\<bar> \<le> 5"
    by (auto simp: onsetPair_def Let_def maxOffset_def split: if_splits)
  from b have "- 5 \<le> videoOnsets ! i - audioOnsets ! j" "videoOnsets ! i - audioOnsets ! j \<le> 5"
    by (simp_all add: abs_le_iff)
  then show ?thesis
    using toFixed_range5 [of "videoOnsets ! i - audioOnsets ! j" 2] r by simp
qed

lemma patternResults_range:
  "r \<in> set (patternResults videoOnsets audioOnsets) \<Longrightarrow> - 5 \<le> offset r \<and> offset r \<le> 5"
  by (auto simp: patternResults_def dest: onsetPair_range)

lemma firstOnsetFallback_range:
  "r \<in> set (firstOnsetFallback videoOnsets audioOnsets) \<Longrightarrow> - 5 \<le> offset r \<and> offset r \<le> 5"
proof -
  assume "r \<in> set (firstOnsetFallback videoOnsets audioOnsets)"
  then have r: "offset r = parseFloat_toFixed 2 (videoOnsets ! 0 - audioOnsets ! 0)"
    and b: "\<bar>videoOnsets ! 0 - audioOnsets ! 0\<bar> \<le> 5"
    by (auto simp: firstOnsetFallback_def Let_def maxOffset_def split: if_splits)
  from b have "- 5 \<le> videoOnsets ! 0 - audioOnsets ! 0" "videoOnsets ! 0 - audioOnsets ! 0 \<le> 5"
    by (simp_all add: abs_le_iff)
  then show ?thesis
    using toFixed_range5 [of "videoOnsets ! 0 - audioOnsets ! 0" 2] r by simp
qed

lemma matchOnsets_range:
  "r \<in> set (matchOnsets videoOnsets audioOnsets) \<Longrightarrow> - 5 \<le> offset r \<and> offset r \<le> 5"
  by (auto simp: matchOnsets_def Let_def split: if_splits
      dest: patternResults_range firstOnsetFallback_range)

lemma onsetPair_match:
  assumes "patternSimilarity videoOnsets audioOnsets i j = 1"
    and "\<bar>videoOnsets ! i - audioOnsets ! j\<bar> \<le> 5"
  shows "onsetPair videoOnsets audioOnsets i j =
     [\<lparr>offset = parseFloat_toFixed 2 (videoOnsets ! i - audioOnsets ! j), correlation = 1\<rparr>]"
  using assms by (simp add: onsetPair_def maxOffset_def)

lemma onsetPair_no_match:
  assumes "patternSimilarity videoOnsets audioOnsets i j = 0"
  shows "onsetPair videoOnsets audioOnsets i j = []"
  using assms by (simp add: onsetPair_def)

lemma patternResults_member:
  assumes "i + 2 < length videoOnsets" "j + 2 < length audioOnsets"
    and "r \<in> set (onsetPair videoOnsets audioOnsets i j)"
  shows "r \<in> set (patternResults videoOnsets audioOnsets)"
proof -
  have "i \<in> set [0..<length videoOnsets - 2]" "j \<in> set [0..<length audioOnsets - 2]"
    using assms(1,2) by simp_all
  then show ?thesis
    using assms(3) unfolding patternResults_def by (simp del: set_upt) blast
qed

lemma patternResults_empty:
  assumes "\<forall>i j. i + 2 < length videoOnsets \<and> j + 2 < length audioOnsets
            \<longrightarrow> patternSimilarity videoOnsets audioOnsets i j = 0"
  shows "patternResults videoOnsets audioOnsets = []"
proof -
  have "onsetPair videoOnsets audioOnsets i j = []"
    if "i \<in> set [0..<length videoOnsets - 2]" "j \<in> set [0..<length audioOnsets - 2]" for i j
  proof -
    have "i + 2 < length videoOnsets" "j + 2 < length audioOnsets"
      using that by simp_all
    then show ?thesis
      using assms by (simp add: onsetPair_no_match)
  qed
  then show ?thesis
    unfolding patternResults_def by (simp del: set_upt)
qed

lemma patternResults_origin:
  assumes "r \<in> set (patternResults videoOnsets audioOnsets)"
  shows "\<exists>i j. i + 2 < length videoOnsets \<and> j + 2 < length audioOnsets
          \<and> patternSimilarity videoOnsets audioOnsets i j = 1
          \<and> \<bar>videoOnsets ! i - audioOnsets ! j\<bar> \<le> 5
          \<and> r = \<lparr>offset = parseFloat_toFixed 2 (videoOnsets ! i - audioOnsets ! j), correlation = 1\<rparr>"
proof -
  from assms obtain i j where i: "i < length videoOnsets - 2" and j: "j < length audioOnsets - 2"
    and r: "r \<in> set (onsetPair videoOnsets audioOnsets i j)"
    by (auto simp: patternResults_def)
  have sim: "patternSimilarity videoOnsets audioOnsets i j = 1"
    using r by (auto simp: onsetPair_def patternSimilarity_def Let_def split: if_splits)
  have rng: "\<bar>videoOnsets ! i - audioOnsets ! j\<bar> \<le> 5"
    using r by (auto simp: onsetPair_def Let_def maxOffset_def split: if_splits)
  have "r = \<lparr>offset = parseFloat_toFixed 2 (videoOnsets ! i - audioOnsets ! j), correlation = 1\<rparr>"
    using r onsetPair_match [OF sim rng] by simp
  moreover have "i + 2 < length videoOnsets" "j + 2 < length audioOnsets"
    using i j by simp_all
  ultimately show ?thesis
    using sim rng by blast
qed

lemma matchOnsets_pattern_member:
  assumes "i + 2 < length videoOnsets" "j + 2 < length audioOnsets"
    and "patternSimilarity videoOnsets audioOnsets i j = 1"
    and "\<bar>videoOnsets ! i - audioOnsets ! j\<bar> \<le> 5"
  shows "\<lparr>offset = parseFloat_toFixed 2 (videoOnsets ! i - audioOnsets ! j), correlation = 1\<rparr>
           \<in> set (matchOnsets videoOnsets audioOnsets)"
proof -
  let ?r = "\<lparr>offset = parseFloat_toFixed 2 (videoOnsets ! i - audioOnsets ! j), correlation = 1\<rparr>"
  have "?r \<in> set (onsetPair videoOnsets audioOnsets i j)"
    using onsetPair_match [OF assms(3,4)] by simp
  then have m: "?r \<in> set (patternResults videoOnsets audioOnsets)"
    using assms(1,2) by (rule patternResults_member [rotated 2])
  then have "patternResults videoOnsets audioOnsets \<noteq> []"
    by auto
  moreover have "length videoOnsets \<noteq> 0" "length audioOnsets \<noteq> 0"
    using assms(1,2) by auto
  ultimately have "matchOnsets videoOnsets audioOnsets = patternResults videoOnsets audioOnsets"
    by (simp add: matchOnsets_def)
  then show ?thesis
    using m by simp
qed

lemma matchOnsets_fallback:
  assumes "videoOnsets \<noteq> []" "audioOnsets \<noteq> []"
    and "\<forall>i j. i + 2 < length videoOnsets \<and> j + 2 < length audioOnsets
            \<longrightarrow> patternSimilarity videoOnsets audioOnsets i j = 0"
  shows "matchOnsets videoOnsets audioOnsets =
     (if \<bar>videoOnsets ! 0 - audioOnsets ! 0\<bar> \<le> 5
      then [\<lparr>offset = parseFloat_toFixed 2 (videoOnsets ! 0 - audioOnsets ! 0), correlation = 5 / 10\<rparr>]
      else [])"
proof -
  have "patternResults videoOnsets audioOnsets = []"
    using assms(3) by (rule patternResults_empty)
  then have "matchOnsets videoOnsets audioOnsets = firstOnsetFallback videoOnsets audioOnsets"
    using assms(1,2) by (simp add: matchOnsets_def)
  then show ?thesis
    by (simp add: firstOnsetFallback_def maxOffset_def)
qed

text \<open>
  Claim C8, as amended. For every pair of onset sequences: each pair of onset triples
  whose two inter-onset intervals each differ by less than \<open>0.1\<close> and whose offset
  \<open>onsetA[i] - onsetB[j]\<close> lies within \<open>[-5, 5]\<close> gives a candidate whose offset is that
  difference rounded to two decimals and whose confidence is exactly \<open>1\<close>; every candidate
  of the result has its offset in \<open>[-5, 5]\<close>; and when no pair of triples matches and both
  sequences are non-empty, the result is the single fallback candidate that aligns the
  first onsets (offset rounded to two decimals, confidence \<open>0.5\<close>) if that offset is
  within \<open>[-5, 5]\<close>, and is empty otherwise.
\<close>

theorem matchOnsets_candidates:
  "(i + 2 < length videoOnsets \<and> j + 2 < length audioOnsets
      \<and> \<bar>(videoOnsets ! (i + 1) - videoOnsets ! i) - (audioOnsets ! (j + 1) - audioOnsets ! j)\<bar> < 1 / 10
      \<and> \<bar>(videoOnsets ! (i + 2) - videoOnsets ! (i + 1))
            - (audioOnsets ! (j + 2) - audioOnsets ! (j + 1))\<bar> < 1 / 10
      \<and> \<bar>videoOnsets ! i - audioOnsets ! j\<bar> \<le> 5
    \<longrightarrow> \<lparr>offset = parseFloat_toFixed 2 (videoOnsets ! i - audioOnsets ! j), correlation = 1\<rparr>
          \<in> set (matchOnsets videoOnsets audioOnsets))
   \<and> (\<forall>r \<in> set (matchOnsets videoOnsets audioOnsets). - 5 \<le> offset r \<and> offset r \<le> 5)
   \<and> (videoOnsets \<noteq> [] \<and> audioOnsets \<noteq> []
      \<and> (\<forall>i j. i + 2 < length videoOnsets \<and> j + 2 < length audioOnsets
            \<longrightarrow> patternSimilarity videoOnsets audioOnsets i j = 0)
    \<longrightarrow> matchOnsets videoOnsets audioOnsets =
          (if \<bar>videoOnsets ! 0 - audioOnsets ! 0\<bar> \<le> 5
           then [\<lparr>offset = parseFloat_toFixed 2 (videoOnsets ! 0 - audioOnsets ! 0),
                  correlation = 5 / 10\<rparr>]
           else []))"
proof (intro conjI impI ballI)
  assume h: "i + 2 < length videoOnsets \<and> j + 2 < length audioOnsets
      \<and> \<bar>(videoOnsets ! (i + 1) - videoOnsets ! i) - (audioOnsets ! (j + 1) - audioOnsets ! j)\<bar> < 1 / 10
      \<and> \<bar>(videoOnsets ! (i + 2) - videoOnsets ! (i + 1))
            - (audioOnsets ! (j + 2) - audioOnsets ! (j + 1))\<bar> < 1 / 10
      \<and> \<bar>videoOnsets ! i - audioOnsets ! j\<bar> \<le> 5"
  then have "patternSimilarity videoOnsets audioOnsets i j = 1"
    by (simp add: patternSimilarity_def)
  then show "\<lparr>offset = parseFloat_toFixed 2 (videoOnsets ! i - audioOnsets ! j), correlation = 1\<rparr>
          \<in> set (matchOnsets videoOnsets audioOnsets)"
    using h by (intro matchOnsets_pattern_member) simp_all
next
  fix r assume "r \<in> set (matchOnsets videoOnsets audioOnsets)"
  then show "- 5 \<le> offset r" "offset r \<le> 5"
    using matchOnsets_range by blast+
next
  assume "videoOnsets \<noteq> [] \<and> audioOnsets \<noteq> []
      \<and> (\<forall>i j. i + 2 < length videoOnsets \<and> j + 2 < length audioOnsets
            \<longrightarrow> patternSimilarity videoOnsets audioOnsets i j = 0)"
  then show "matchOnsets videoOnsets audioOnsets =
          (if \<bar>videoOnsets ! 0 - audioOnsets ! 0\<bar> \<le> 5
           then [\<lparr>offset = parseFloat_toFixed 2 (videoOnsets ! 0 - audioOnsets ! 0),
                  correlation = 5 / 10\<rparr>]
           else [])"
    using matchOnsets_fallback by blast
qed

theorem matchOnsets_candidates_witness:
  "(0::nat) + 2 < length [8192 / 44100, 20480 / 44100, 32768 / 44100 :: real]
   \<and> \<lparr>offset = 9 / 100, correlation = 1\<rparr>
        \<in> set (matchOnsets [8192 / 44100, 20480 / 44100, 32768 / 44100]
                             [4096 / 44100, 16384 / 44100, 28672 / 44100])
   \<and> [1 :: real] \<noteq> [] \<and> [3 :: real] \<noteq> []
   \<and> matchOnsets [1] [3] = [\<lparr>offset = - 2, correlation = 5 / 10\<rparr>]"
proof -
  let ?V = "[8192 / 44100, 20480 / 44100, 32768 / 44100 :: real]"
  let ?A = "[4096 / 44100, 16384 / 44100, 28672 / 44100 :: real]"
  have h: "0 + 2 < length ?V \<and> 0 + 2 < length ?A
      \<and> \<bar>(?V ! (0 + 1) - ?V ! 0) - (?A ! (0 + 1) - ?A ! 0)\<bar> < 1 / 10
      \<and> \<bar>(?V ! (0 + 2) - ?V ! (0 + 1)) - (?A ! (0 + 2) - ?A ! (0 + 1))\<bar> < 1 / 10
      \<and> \<bar>?V ! 0 - ?A ! 0\<bar> \<le> 5"
    by simp
  have a: "\<lparr>offset = parseFloat_toFixed 2 (?V ! 0 - ?A ! 0), correlation = 1\<rparr>
          \<in> set (matchOnsets ?V ?A)"
    by (rule matchOnsets_candidates [of 0 ?V 0 ?A, THEN conjunct1, THEN mp]) (rule h)
  have b: "parseFloat_toFixed 2 (?V ! 0 - ?A ! 0) = 9 / 100"
    by (simp add: parseFloat_toFixed_def)
  from a have m: "\<lparr>offset = 9 / 100, correlation = 1\<rparr> \<in> set (matchOnsets ?V ?A)"
    unfolding b .
  have g: "[1 :: real] \<noteq> [] \<and> [3 :: real] \<noteq> []
      \<and> (\<forall>i j. i + 2 < length [1 :: real] \<and> j + 2 < length [3 :: real]
            \<longrightarrow> patternSimilarity [1] [3] i j = 0)"
    by simp
  have "matchOnsets [1] [3] =
          (if \<bar>[1] ! 0 - [3] ! 0\<bar> \<le> (5::real)
           then [\<lparr>offset = parseFloat_toFixed 2 ([1] ! 0 - [3] ! 0), correlation = 5 / 10\<rparr>]
           else [])"
    by (rule matchOnsets_candidates [of 0 "[1]" 0 "[3]", THEN conjunct2, THEN conjunct2, THEN mp])
      (rule g)
  then have f: "matchOnsets [1] [3] = [\<lparr>offset = - 2, correlation = 5 / 10\<rparr>]"
    by (simp add: parseFloat_toFixed_def)
  have l: "(0::nat) + 2 < length ?V" "[1 :: real] \<noteq> []" "[3 :: real] \<noteq> []"
    by simp_all
  show ?thesis
    by (intro conjI l m f)
qed

text \<open>
  Claim C8 as stated fails on the offset: for onsets at frames 2, 5, 8 and 1, 4, 7 of a
  44100 Hz track (4096 samples a frame) the triples match with
  \<open>onsetA[0] - onsetB[0] = 4096 / 44100\<close>, and the only candidate has offset \<open>0.09\<close>.
\<close>

theorem matchOnsets_offset_rounded_counterexample:
  "matchOnsets [8192 / 44100, 20480 / 44100, 32768 / 44100]
               [4096 / 44100, 16384 / 44100, 28672 / 44100]
     = [\<lparr>offset = 9 / 100, correlation = 1\<rparr>]
   \<and> [8192 / 44100, 20480 / 44100, 32768 / 44100] ! 0
       - [4096 / 44100, 16384 / 44100, 28672 / 44100] ! 0 = (4096 / 44100 :: real)
   \<and> (4096 / 44100 :: real) \<noteq> 9 / 100"
  by (simp add: matchOnsets_def patternResults_def onsetPair_def patternSimilarity_def
      maxOffset_def parseFloat_toFixed_def)


section \<open>Properties of the basic correlation\<close>

lemma scan_constants:
  "maxOffsetSamples = 220500" "stepSize = 4410" "sampleRate = 44100" "maxSamples = 441000"
  by (simp_all add: maxOffsetSamples_def maxOffsetSeconds_def stepSize_def sampleRate_def
      maxSamples_def)

lemma scanOffsets_step:
  "offsetSamples \<le> 220500 \<Longrightarrow>
   scanOffsets s1 s2 offsetSamples =
     \<lparr>offset = parseFloat_toFixed 2 (real_of_int offsetSamples / 44100),
      correlation = correlationAt s1 s2 offsetSamples\<rparr>
     # scanOffsets s1 s2 (offsetSamples + 4410)"
  by (subst scanOffsets.simps) (simp add: scan_constants)

lemma scanOffsets_stop:
  "220500 < offsetSamples \<Longrightarrow> scanOffsets s1 s2 offsetSamples = []"
  by (subst scanOffsets.simps) (simp add: scan_constants)

lemma scanOffsets_upt:
  "scanOffsets s1 s2 (220500 - 4410 * int n) =
     map (\<lambda>m. \<lparr>offset = parseFloat_toFixed 2
                   (real_of_int (220500 - 4410 * int n + 4410 * int m) / 44100),
                correlation = correlationAt s1 s2 (220500 - 4410 * int n + 4410 * int m)\<rparr>)
         [0..<Suc n]"
proof (induction n)
  case 0
  show ?case
    by (simp add: scanOffsets_step scanOffsets_stop)
next
  case (Suc n)
  have le: "220500 - 4410 * int (Suc n) \<le> 220500"
    by simp
  have next_offset: "220500 - 4410 * int (Suc n) + 4410 = 220500 - 4410 * int n"
    by simp
  have shift: "220500 - 4410 * int (Suc n) + 4410 * int (Suc m)
      = 220500 - 4410 * int n + 4410 * int m" for m
    by simp
  show ?case
    apply (subst scanOffsets_step [OF le])
    apply (subst next_offset)
    apply (subst Suc.IH)
    apply (subst (2) map_upt_Suc)
    apply (simp only: shift)
    apply simp
    done
qed

lemma toFixed_tenths:
  "parseFloat_toFixed 2 (real_of_int (4410 * k) / 44100) = real_of_int k / 10"
proof -
  have "real_of_int (4410 * k) / 44100 = real_of_int (10 * k) / 10 ^ 2"
    by simp
  then have "parseFloat_toFixed 2 (real_of_int (4410 * k) / 44100) = real_of_int (10 * k) / 10 ^ 2"
    by (simp only: toFixed_of_int)
  then show ?thesis
    by simp
qed

text \<open>
  The scan always has the same 101 entries: entry \<open>n\<close> is the lag of
  \<open>4410 * (n - 50)\<close> samples over the first 441000 samples of each signal, reported as
  \<open>(n - 50) / 10\<close> seconds.
\<close>

lemma findCorrelation_entries:
  "findCorrelation signal1 signal2 =
     map (\<lambda>n. \<lparr>offset = (real n - 50) / 10,
                correlation = correlationAt (take 441000 signal1) (take 441000 signal2)
                                (4410 * (int n - 50))\<rparr>)
         [0..<101]"
proof -
  have t: "take (min (length xs) maxSamples) xs = take 441000 xs" for xs :: "real list"
    by (simp add: scan_constants min_def)
  have start: "- maxOffsetSamples = 220500 - 4410 * int 100"
    by (simp add: scan_constants)
  have lag: "220500 - 4410 * int 100 + 4410 * int m = 4410 * (int m - 50)" for m
    by simp
  have off: "parseFloat_toFixed 2 (real_of_int (4410 * (int m - 50)) / 44100) = (real m - 50) / 10"
    for m
    by (simp only: toFixed_tenths) simp
  have "findCorrelation signal1 signal2 =
      scanOffsets (take 441000 signal1) (take 441000 signal2) (220500 - 4410 * int 100)"
    by (simp only: findCorrelation_def Let_def t start)
  also have "\<dots> = map (\<lambda>m. \<lparr>offset = parseFloat_toFixed 2
                   (real_of_int (220500 - 4410 * int 100 + 4410 * int m) / 44100),
                correlation = correlationAt (take 441000 signal1) (take 441000 signal2)
                   (220500 - 4410 * int 100 + 4410 * int m)\<rparr>) [0..<Suc 100]"
    by (rule scanOffsets_upt)
  also have "\<dots> = map (\<lambda>n. \<lparr>offset = (real n - 50) / 10,
                correlation = correlationAt (take 441000 signal1) (take 441000 signal2)
                                (4410 * (int n - 50))\<rparr>) [0..<101]"
    by (simp only: lag off) simp
  finally show ?thesis .
qed

lemma findCorrelation_nth:
  assumes "n < 101"
  shows "findCorrelation signal1 signal2 ! n =
     \<lparr>offset = (real n - 50) / 10,
      correlation = correlationAt (take 441000 signal1) (take 441000 signal2)
                      (4410 * (int n - 50))\<rparr>"
proof -
  have "map f [0..<101] ! n = f n" for f :: "nat \<Rightarrow> correlation_result"
    using assms by simp
  then show ?thesis
    by (simp only: findCorrelation_entries)
qed

lemma correlationSums_fold:
  "fold (\<lambda>i (c, n). if P i then (c + f i, n + 1) else (c, n)) [0..<N] (c0, n0) =
     (c0 + (\<Sum>i<N. if P i then f i else (0::real)), n0 + (\<Sum>i<N. if P i then 1 else (0::nat)))"
  by (induction N) (simp_all add: lessThan_Suc)

lemma correlationSums_sum:
  "correlationSums s1 s2 k =
     ((\<Sum>i<length s1. if 0 \<le> int i + k \<and> int i + k < int (length s2)
                         then s1 ! i * s2 ! nat (int i + k) else 0),
      (\<Sum>i<length s1. if 0 \<le> int i + k \<and> int i + k < int (length s2) then 1 else 0))"
proof -
  have "correlationSums s1 s2 k =
      fold (\<lambda>i (c, n). if 0 \<le> int i + k \<and> int i + k < int (length s2)
                          then (c + s1 ! i * s2 ! nat (int i + k), n + 1) else (c, n))
           [0..<length s1] (0, 0)"
    by (simp add: correlationSums_def Let_def)
  then show ?thesis
    by (simp only: correlationSums_fold) simp
qed

lemma lagged_sum_le:
  fixes a :: "nat \<Rightarrow> real"
  shows "(\<Sum>i<N. if 0 \<le> int i + k \<and> int i + k < int N then a i * a (nat (int i + k)) else 0)
           \<le> (\<Sum>i<N. a i * a i)"
proof -
  define I where "I = {i \<in> {..<N}. 0 \<le> int i + k \<and> int i + k < int N}"
  define shift where "shift = (\<lambda>i. nat (int i + k))"
  have fin: "finite I" and sub: "I \<subseteq> {..<N}"
    by (auto simp: I_def)
  have lhs: "(\<Sum>i<N. if 0 \<le> int i + k \<and> int i + k < int N then a i * a (nat (int i + k)) else 0)
      = (\<Sum>i\<in>I. a i * a (shift i))"
    unfolding I_def shift_def by (rule sum.inter_filter [symmetric]) simp
  have "a i * a (shift i) \<le> (a i * a i + a (shift i) * a (shift i)) / 2" for i
  proof -
    have "0 \<le> (a i - a (shift i)) * (a i - a (shift i))"
      by simp
    then show ?thesis
      by (simp add: algebra_simps)
  qed
  then have "(\<Sum>i\<in>I. a i * a (shift i))
      \<le> (\<Sum>i\<in>I. (a i * a i + a (shift i) * a (shift i)) / 2)"
    by (intro sum_mono)
  also have "\<dots> = (\<Sum>i\<in>I. a i * a i + a (shift i) * a (shift i)) / 2"
    by (rule sum_divide_distrib [symmetric])
  also have "\<dots> = ((\<Sum>i\<in>I. a i * a i) + (\<Sum>i\<in>I. a (shift i) * a (shift i))) / 2"
    by (simp only: sum.distrib)
  finally have step: "(\<Sum>i\<in>I. a i * a (shift i))
      \<le> ((\<Sum>i\<in>I. a i * a i) + (\<Sum>i\<in>I. a (shift i) * a (shift i))) / 2" .
  have first: "(\<Sum>i\<in>I. a i * a i) \<le> (\<Sum>i<N. a i * a i)"
    using sub by (intro sum_mono2) simp_all
  have inj: "inj_on shift I"
    by (auto simp: inj_on_def I_def shift_def)
  have img: "shift ` I \<subseteq> {..<N}"
    by (auto simp: I_def shift_def)
  have "(\<Sum>i\<in>I. a (shift i) * a (shift i)) = (\<Sum>j\<in>shift ` I. a j * a j)"
    using inj by (simp add: sum.reindex)
  also have "\<dots> \<le> (\<Sum>j<N. a j * a j)"
    using img by (intro sum_mono2) simp_all
  finally have second: "(\<Sum>i\<in>I. a (shift i) * a (shift i)) \<le> (\<Sum>j<N. a j * a j)" .
  define L where "L = (\<Sum>i\<in>I. a i * a (shift i))"
  define T1 where "T1 = (\<Sum>i\<in>I. a i * a i)"
  define T2 where "T2 = (\<Sum>i\<in>I. a (shift i) * a (shift i))"
  define S0 where "S0 = (\<Sum>i<N. a i * a i)"
  have "L \<le> (T1 + T2) / 2" "T1 \<le> S0" "T2 \<le> S0"
    using step first second by (simp_all only: L_def T1_def T2_def S0_def)
  then have "L \<le> S0"
    by (simp add: field_simps)
  then show ?thesis
    by (simp only: lhs L_def S0_def)
qed

lemma correlationSums_zero_lag:
  "correlationSums s s 0 = ((\<Sum>i<length s. s ! i * s ! i), length s)"
proof -
  have "(\<Sum>i<length s. if 0 \<le> int i + 0 \<and> int i + 0 < int (length s)
                         then s ! i * s ! nat (int i + 0) else 0) = (\<Sum>i<length s. s ! i * s ! i)"
    by (intro sum.cong) simp_all
  moreover have "(\<Sum>i<length s. if 0 \<le> int i + 0 \<and> int i + 0 < int (length s) then 1 else 0)
      = length s"
    by simp
  ultimately show ?thesis
    by (simp only: correlationSums_sum)
qed

lemma correlationSums_le_zero_lag:
  "fst (correlationSums s s k) \<le> fst (correlationSums s s 0)"
  using lagged_sum_le [where N = "length s" and k = k and a = "\<lambda>i. s ! i"]
  by (simp add: correlationSums_zero_lag) (simp add: correlationSums_sum)

lemma weighted_confidence_le:
  "correlationAt s s k * real (overlapCount s s k) \<le> correlationAt s s 0 * real (length s)"
proof -
  obtain c n where cn: "correlationSums s s k = (c, n)"
    by (cases "correlationSums s s k")
  have le: "c \<le> (\<Sum>i<length s. s ! i * s ! i)"
    using correlationSums_le_zero_lag [of s k] by (simp add: cn correlationSums_zero_lag)
  have nonneg: "0 \<le> (\<Sum>i<length s. s ! i * s ! i)"
    by (intro sum_nonneg) simp
  have n_le: "n \<le> length s"
  proof -
    have "n = (\<Sum>i<length s. if 0 \<le> int i + k \<and> int i + k < int (length s) then 1 else 0)"
      using cn by (simp add: correlationSums_sum)
    also have "\<dots> \<le> (\<Sum>i<length s. 1)"
      by (intro sum_mono) simp
    finally show ?thesis by simp
  qed
  have lhs: "correlationAt s s k * real (overlapCount s s k) = (if n > 0 then c else 0)"
    by (simp add: correlationAt_def overlapCount_def cn)
  have rhs: "correlationAt s s 0 * real (length s)
      = (if length s > 0 then (\<Sum>i<length s. s ! i * s ! i) else 0)"
    by (simp add: correlationAt_def correlationSums_zero_lag)
  show ?thesis
  proof (cases "n > 0")
    case True
    then have "length s > 0" using n_le by auto
    then show ?thesis using True le by (simp add: lhs rhs)
  next
    case False
    then show ?thesis using nonneg by (simp add: lhs rhs)
  qed
qed

lemma correlationAt_zero_sum:
  "fst (correlationSums s1 s2 k) = 0 \<Longrightarrow> correlationAt s1 s2 k = 0"
  by (cases "correlationSums s1 s2 k") (simp add: correlationAt_def)

text \<open>
  Claim C10. Whatever the tracks, the scan has 101 entries; entry \<open>n\<close> correlates the
  first 441000 samples of each track at a lag of \<open>4410 * (n - 50)\<close> samples and reports
  that lag divided by 44100 as its offset. For tracks really sampled at \<open>rate\<close>, where
  the lag spans \<open>lagSeconds rate lag\<close>, the reported offset is that time scaled by
  \<open>rate / 44100\<close>.
\<close>

theorem findCorrelation_fixed_rate:
  "length (findCorrelation signal1 signal2) = 101
   \<and> (n < 101 \<longrightarrow>
        correlation (findCorrelation signal1 signal2 ! n)
          = correlationAt (take 441000 signal1) (take 441000 signal2) (4410 * (int n - 50))
        \<and> offset (findCorrelation signal1 signal2 ! n) = real_of_int (4410 * (int n - 50)) / 44100
        \<and> (0 < rate \<longrightarrow>
             offset (findCorrelation signal1 signal2 ! n)
               = lagSeconds rate (4410 * (int n - 50)) * (rate / 44100)))"
proof (intro conjI impI)
  show "length (findCorrelation signal1 signal2) = 101"
    by (simp add: findCorrelation_entries)
next
  assume n: "n < 101"
  show "correlation (findCorrelation signal1 signal2 ! n)
          = correlationAt (take 441000 signal1) (take 441000 signal2) (4410 * (int n - 50))"
    by (simp add: findCorrelation_nth [OF n])
  show off: "offset (findCorrelation signal1 signal2 ! n) = real_of_int (4410 * (int n - 50)) / 44100"
    by (simp add: findCorrelation_nth [OF n])
  assume "0 < rate"
  then show "offset (findCorrelation signal1 signal2 ! n)
               = lagSeconds rate (4410 * (int n - 50)) * (rate / 44100)"
    by (simp add: off lagSeconds_def)
qed

theorem findCorrelation_fixed_rate_witness:
  "(52::nat) < 101 \<and> (0::real) < 48000
   \<and> offset (findCorrelation [1] [1] ! 52) = 2 / 10
   \<and> lagSeconds 48000 (4410 * (int 52 - 50)) = 8820 / 48000
   \<and> offset (findCorrelation [1] [1] ! 52) = lagSeconds 48000 (4410 * (int 52 - 50)) * (48000 / 44100)"
proof -
  have n: "(52::nat) < 101" and r: "(0::real) < 48000"
    by simp_all
  note inst = findCorrelation_fixed_rate [of "[1]" "[1]" 52 48000, THEN conjunct2, THEN mp, OF n]
  have a: "offset (findCorrelation [1] [1] ! 52) = real_of_int (4410 * (int 52 - 50)) / 44100"
    by (rule inst [THEN conjunct2, THEN conjunct1])
  have b: "offset (findCorrelation [1] [1] ! 52) = lagSeconds 48000 (4410 * (int 52 - 50)) * (48000 / 44100)"
    by (rule inst [THEN conjunct2, THEN conjunct2, THEN mp, OF r])
  have c: "offset (findCorrelation [1] [1] ! 52) = 2 / 10"
    by (simp only: a) simp
  have d: "lagSeconds 48000 (4410 * (int 52 - 50)) = 8820 / 48000"
    by (simp add: lagSeconds_def)
  show ?thesis
    by (intro conjI n r c d b)
qed

text \<open>
  Claim C5, as amended. For the identical pair \<open>(A, A)\<close>, the entry at offset \<open>0.0\<close>
  reports the mean square of the windowed samples, and for every scanned offset the
  reported confidence times its overlap count is at most the confidence at offset \<open>0.0\<close>
  times the window length: the sum of products, before it is divided by the overlap
  count, is largest at offset \<open>0.0\<close>.
\<close>

theorem identical_tracks_zero_lag_bound:
  "offset (findCorrelation A A ! 50) = 0
   \<and> correlation (findCorrelation A A ! 50) * real (length (take 441000 A))
       = (\<Sum>i<length (take 441000 A). take 441000 A ! i * take 441000 A ! i)
   \<and> (n < 101 \<longrightarrow>
        offset (findCorrelation A A ! n) = (real n - 50) / 10
        \<and> correlation (findCorrelation A A ! n)
              * real (overlapCount (take 441000 A) (take 441000 A) (4410 * (int n - 50)))
            \<le> correlation (findCorrelation A A ! 50) * real (length (take 441000 A)))"
proof -
  let ?s = "take 441000 A"
  have fifty: "findCorrelation A A ! 50 = \<lparr>offset = 0, correlation = correlationAt ?s ?s 0\<rparr>"
    using findCorrelation_nth [of 50 A A] by simp
  have zero: "correlationAt ?s ?s 0 * real (length ?s) = (\<Sum>i<length ?s. ?s ! i * ?s ! i)"
    by (simp add: correlationAt_def correlationSums_zero_lag)
  have bound: "offset (findCorrelation A A ! n) = (real n - 50) / 10
        \<and> correlation (findCorrelation A A ! n)
              * real (overlapCount ?s ?s (4410 * (int n - 50)))
            \<le> correlation (findCorrelation A A ! 50) * real (length ?s)" if n: "n < 101"
    using weighted_confidence_le [of ?s "4410 * (int n - 50)"]
    by (simp only: findCorrelation_nth [OF n] fifty) simp
  show ?thesis
    using fifty zero bound by simp
qed

theorem identical_tracks_zero_lag_bound_witness:
  "(52::nat) < 101
   \<and> offset (findCorrelation [1, 2] [1, 2] ! 50) = 0
   \<and> correlation (findCorrelation [1, 2] [1, 2] ! 50) * real (length (take 441000 [1, 2 :: real])) = 5
   \<and> offset (findCorrelation [1, 2] [1, 2] ! 52) = 2 / 10
   \<and> correlation (findCorrelation [1, 2] [1, 2] ! 52)
         * real (overlapCount (take 441000 [1, 2]) (take 441000 [1, 2]) (4410 * (int 52 - 50)))
       \<le> correlation (findCorrelation [1, 2] [1, 2] ! 50) * real (length (take 441000 [1, 2 :: real]))"
proof -
  have n: "(52::nat) < 101"
    by simp
  note inst = identical_tracks_zero_lag_bound [of "[1, 2]" 52]
  have a: "offset (findCorrelation [1, 2] [1, 2] ! 50) = 0"
    by (rule inst [THEN conjunct1])
  have "correlation (findCorrelation [1, 2] [1, 2] ! 50) * real (length (take 441000 [1, 2 :: real]))
       = (\<Sum>i<length (take 441000 [1, 2 :: real]). take 441000 [1, 2] ! i * take 441000 [1, 2] ! i)"
    by (rule inst [THEN conjunct2, THEN conjunct1])
  also have "\<dots> = (\<Sum>i<Suc (Suc 0). [1, 2 :: real] ! i * [1, 2] ! i)"
    by simp
  also have "\<dots> = 5"
    by (simp add: lessThan_Suc)
  finally have b: "correlation (findCorrelation [1, 2] [1, 2] ! 50)
       * real (length (take 441000 [1, 2 :: real])) = 5" .
  note rest = inst [THEN conjunct2, THEN conjunct2, THEN mp, OF n]
  have c: "offset (findCorrelation [1, 2] [1, 2] ! 52) = 2 / 10"
    using rest [THEN conjunct1] by simp
  show ?thesis
    by (intro conjI n a b c rest [THEN conjunct2])
qed

text \<open>
  A signal of 8821 samples that is silent but for a unit spike at each end: at a lag of
  8820 samples one product of the two spikes is the whole overlap.
\<close>

lemma spikes_length: "length ((replicate 8821 (0::real))[0 := 1, 8820 := 1]) = 8821"
  by simp

lemma spikes_take:
  "take 441000 ((replicate 8821 (0::real))[0 := 1, 8820 := 1]) = (replicate 8821 0)[0 := 1, 8820 := 1]"
  by simp

lemma spikes_nth:
  "i < 8821 \<Longrightarrow> (replicate 8821 (0::real))[0 := 1, 8820 := 1] ! i = (if i = 0 \<or> i = 8820 then 1 else 0)"
  by (simp add: nth_list_update)

lemma spikes_far_lag:
  "correlationSums ((replicate 8821 0)[0 := 1, 8820 := 1]) ((replicate 8821 0)[0 := 1, 8820 := 1]) 8820
     = (1, 1)"
proof -
  let ?A = "(replicate 8821 (0::real))[0 := 1, 8820 := 1]"
  have c: "(\<Sum>i<8821. if 0 \<le> int i + 8820 \<and> int i + 8820 < int 8821
                       then ?A ! i * ?A ! nat (int i + 8820) else 0)
      = (\<Sum>i::nat<8821. if i = 0 then 1 else (0::real))"
    by (intro sum.cong refl) (auto simp: spikes_nth)
  have n: "(\<Sum>i<8821. if 0 \<le> int i + 8820 \<and> int i + 8820 < int 8821 then 1 else 0)
      = (\<Sum>i::nat<8821. if i = 0 then 1 else (0::nat))"
    by (intro sum.cong refl) auto
  show ?thesis
    by (simp only: correlationSums_sum spikes_length c n) simp
qed

lemma spikes_zero_lag:
  "correlationSums ((replicate 8821 0)[0 := 1, 8820 := 1]) ((replicate 8821 0)[0 := 1, 8820 := 1]) 0
     = (2, 8821)"
proof -
  let ?A = "(replicate 8821 (0::real))[0 := 1, 8820 := 1]"
  have "(\<Sum>i<8821. ?A ! i * ?A ! i)
      = (\<Sum>i::nat<8821. (if i = 0 then 1 else 0) + (if i = 8820 then 1 else (0::real)))"
    by (intro sum.cong refl) (auto simp: spikes_nth)
  also have "\<dots> = 2"
    by (simp only: sum.distrib) simp
  finally show ?thesis
    by (simp add: correlationSums_zero_lag)
qed

lemma spikes_near_lag:
  assumes "k = 4410 \<or> k = - 4410"
  shows "fst (correlationSums ((replicate 8821 0)[0 := 1, 8820 := 1])
               ((replicate 8821 0)[0 := 1, 8820 := 1]) k) = 0"
proof -
  let ?A = "(replicate 8821 (0::real))[0 := 1, 8820 := 1]"
  have "(\<Sum>i<8821. if 0 \<le> int i + k \<and> int i + k < int 8821
                       then ?A ! i * ?A ! nat (int i + k) else 0)
      = (\<Sum>i::nat<8821. (0::real))"
    using assms by (intro sum.cong refl) (auto simp: spikes_nth)
  then show ?thesis
    by (simp only: correlationSums_sum spikes_length fst_conv) simp
qed

text \<open>
  Claim C5 as stated fails: for that signal the confidence is \<open>1\<close> at offset \<open>0.2\<close>,
  but \<open>2 / 8821\<close> at offset \<open>0.0\<close> and \<open>0\<close> at offsets \<open>-0.1\<close> and \<open>0.1\<close>, so the
  maximum is neither at \<open>0.0\<close> nor within one step of it.
\<close>

theorem identical_tracks_peak_off_zero_counterexample:
  "findCorrelation ((replicate 8821 0)[0 := 1, 8820 := 1]) ((replicate 8821 0)[0 := 1, 8820 := 1]) ! 52
     = \<lparr>offset = 2 / 10, correlation = 1\<rparr>
   \<and> findCorrelation ((replicate 8821 0)[0 := 1, 8820 := 1]) ((replicate 8821 0)[0 := 1, 8820 := 1]) ! 49
     = \<lparr>offset = - (1 / 10), correlation = 0\<rparr>
   \<and> findCorrelation ((replicate 8821 0)[0 := 1, 8820 := 1]) ((replicate 8821 0)[0 := 1, 8820 := 1]) ! 50
     = \<lparr>offset = 0, correlation = 2 / 8821\<rparr>
   \<and> findCorrelation ((replicate 8821 0)[0 := 1, 8820 := 1]) ((replicate 8821 0)[0 := 1, 8820 := 1]) ! 51
     = \<lparr>offset = 1 / 10, correlation = 0\<rparr>"
proof -
  let ?A = "(replicate 8821 (0::real))[0 := 1, 8820 := 1]"
  have far: "correlationAt ?A ?A 8820 = 1"
    by (simp add: correlationAt_def spikes_far_lag)
  have zero: "correlationAt ?A ?A 0 = 2 / 8821"
    by (simp add: correlationAt_def spikes_zero_lag)
  have before: "correlationAt ?A ?A (- 4410) = 0"
    by (rule correlationAt_zero_sum) (simp add: spikes_near_lag)
  have after: "correlationAt ?A ?A 4410 = 0"
    by (rule correlationAt_zero_sum) (simp add: spikes_near_lag)
  have e52: "findCorrelation ?A ?A ! 52 = \<lparr>offset = 2 / 10, correlation = 1\<rparr>"
    using findCorrelation_nth [of 52 ?A ?A] by (simp only: spikes_take) (simp add: far)
  have e49: "findCorrelation ?A ?A ! 49 = \<lparr>offset = - (1 / 10), correlation = 0\<rparr>"
    using findCorrelation_nth [of 49 ?A ?A] by (simp only: spikes_take) (simp add: before)
  have e50: "findCorrelation ?A ?A ! 50 = \<lparr>offset = 0, correlation = 2 / 8821\<rparr>"
    using findCorrelation_nth [of 50 ?A ?A] by (simp only: spikes_take) (simp add: zero)
  have e51: "findCorrelation ?A ?A ! 51 = \<lparr>offset = 1 / 10, correlation = 0\<rparr>"
    using findCorrelation_nth [of 51 ?A ?A] by (simp only: spikes_take) (simp add: after)
  show ?thesis
    by (intro conjI e52 e49 e50 e51)
qed

end
